theory Spec2Isabelle
  imports Complex_Main
begin

section \<open>Python floats, with their range and their exceptions\<close>

text \<open>
  The program is a Python script over \<open>float\<close> values (IEEE doubles). A float is modelled
  as a finite real, an infinity or a NaN. The range of the doubles is kept: a result too
  large becomes an infinity (\<open>+\<close>, \<open>-\<close>, \<open>*\<close>, \<open>/\<close>) or raises \<open>OverflowError\<close>
  (\<open>math.exp\<close>, \<open>**\<close>, the conversion of an \<open>int\<close>), and a result too small becomes 0.
  Rounding inside the range is not modelled: there a result is the exact real, and the
  sign of a zero is not kept.
\<close>

datatype pyfloat = Fin real | PInf | NInf | NaN

datatype py_error =
    ZeroDivisionError
  | ValueError
  | OverflowError
  | ComplexResult

text \<open>
  \<open>ComplexResult\<close> is not a Python exception: a negative float raised to a non-integral
  power is a \<open>complex\<close> number in Python 3, which the model does not carry. (In the script
  every such value reaches \<open>math.ceil\<close> or \<open>round\<close>, which raise \<open>TypeError\<close> on it.)
\<close>

definition bind :: "py_error + 'a \<Rightarrow> ('a \<Rightarrow> py_error + 'b) \<Rightarrow> py_error + 'b" where
  "bind r f = (case r of Inl e \<Rightarrow> Inl e | Inr v \<Rightarrow> f v)"

text \<open>
  Rounding to nearest takes a real of magnitude at least \<open>2^1024 - 2^970\<close> to an infinity
  and one of magnitude at most \<open>2^-1075\<close> to zero.
\<close>

definition overflow_threshold :: real where
  "overflow_threshold = 2 ^ 1024 - 2 ^ 970"

definition underflow_threshold :: real where
  "underflow_threshold = 1 / 2 ^ 1075"

text \<open>The float for the exact sum or difference \<open>r\<close> of two floats: it cannot underflow.\<close>

definition fl_sum :: "real \<Rightarrow> pyfloat" where
  "fl_sum r =
     (if overflow_threshold \<le> r then PInf
      else if r \<le> - overflow_threshold then NInf
      else Fin r)"

text \<open>The float for the exact product, quotient or power \<open>r\<close>.\<close>

definition fl_round :: "real \<Rightarrow> pyfloat" where
  "fl_round r = (if \<bar>r\<bar> \<le> underflow_threshold then Fin 0 else fl_sum r)"

definition signed_inf :: "bool \<Rightarrow> pyfloat" where
  "signed_inf positive = (if positive then PInf else NInf)"

fun fneg :: "pyfloat \<Rightarrow> pyfloat" where
  "fneg (Fin x) = Fin (- x)"
| "fneg PInf = NInf"
| "fneg NInf = PInf"
| "fneg NaN = NaN"

fun fadd :: "pyfloat \<Rightarrow> pyfloat \<Rightarrow> pyfloat" where
  "fadd (Fin x) (Fin y) = fl_sum (x + y)"
| "fadd NaN b = NaN"
| "fadd a NaN = NaN"
| "fadd PInf NInf = NaN"
| "fadd NInf PInf = NaN"
| "fadd PInf b = PInf"
| "fadd NInf b = NInf"
| "fadd a PInf = PInf"
| "fadd a NInf = NInf"

definition fsub :: "pyfloat \<Rightarrow> pyfloat \<Rightarrow> pyfloat" where
  "fsub a b = fadd a (fneg b)"

fun fmul :: "pyfloat \<Rightarrow> pyfloat \<Rightarrow> pyfloat" where
  "fmul (Fin x) (Fin y) = fl_round (x * y)"
| "fmul NaN b = NaN"
| "fmul a NaN = NaN"
| "fmul (Fin x) PInf = (if x = 0 then NaN else signed_inf (0 < x))"
| "fmul (Fin x) NInf = (if x = 0 then NaN else signed_inf (x < 0))"
| "fmul PInf (Fin y) = (if y = 0 then NaN else signed_inf (0 < y))"
| "fmul NInf (Fin y) = (if y = 0 then NaN else signed_inf (y < 0))"
| "fmul PInf PInf = PInf"
| "fmul PInf NInf = NInf"
| "fmul NInf PInf = NInf"
| "fmul NInf NInf = PInf"

text \<open>The quotient by a non-zero float; \<open>py_div\<close> raises before a zero divisor gets here.\<close>

fun fdiv :: "pyfloat \<Rightarrow> pyfloat \<Rightarrow> pyfloat" where
  "fdiv (Fin x) (Fin y) = fl_round (x / y)"
| "fdiv NaN b = NaN"
| "fdiv a NaN = NaN"
| "fdiv (Fin x) PInf = Fin 0"
| "fdiv (Fin x) NInf = Fin 0"
| "fdiv PInf (Fin y) = signed_inf (0 < y)"
| "fdiv NInf (Fin y) = signed_inf (y < 0)"
| "fdiv PInf PInf = NaN"
| "fdiv PInf NInf = NaN"
| "fdiv NInf PInf = NaN"
| "fdiv NInf NInf = NaN"

definition py_div :: "pyfloat \<Rightarrow> pyfloat \<Rightarrow> py_error + pyfloat" where
  "py_div a b = (if b = Fin 0 then Inl ZeroDivisionError else Inr (fdiv a b))"

text \<open>\<open>float(N)\<close>, as \<open>N * AF\<close> and \<open>N ** y\<close> apply it to an \<open>int\<close> operand.\<close>

definition float_of_int :: "int \<Rightarrow> py_error + pyfloat" where
  "float_of_int N =
     (if overflow_threshold \<le> \<bar>of_int N\<bar> then Inl OverflowError else Inr (Fin (of_int N)))"

fun math_log :: "pyfloat \<Rightarrow> py_error + pyfloat" where
  "math_log (Fin x) = (if x \<le> 0 then Inl ValueError else Inr (Fin (ln x)))"
| "math_log PInf = Inr PInf"
| "math_log NInf = Inl ValueError"
| "math_log NaN = Inr NaN"

fun math_exp :: "pyfloat \<Rightarrow> py_error + pyfloat" where
  "math_exp (Fin x) =
     (if overflow_threshold \<le> exp x then Inl OverflowError else Inr (fl_round (exp x)))"
| "math_exp PInf = Inr PInf"
| "math_exp NInf = Inr (Fin 0)"
| "math_exp NaN = Inr NaN"

definition is_integral :: "real \<Rightarrow> bool" where
  "is_integral y = (y = of_int \<lfloor>y\<rfloor>)"

definition is_odd_integer :: "real \<Rightarrow> bool" where
  "is_odd_integer y = (is_integral y \<and> odd \<lfloor>y\<rfloor>)"

text \<open>\<open>x ** y\<close> for finite floats with \<open>y\<close> not zero, in the case order of CPython.\<close>

definition pow_finite :: "real \<Rightarrow> real \<Rightarrow> py_error + pyfloat" where
  "pow_finite x y =
     (if x = 0 then (if y < 0 then Inl ZeroDivisionError else Inr (Fin 0))
      else if x < 0 \<and> \<not> is_integral y then Inl ComplexResult
      else
        (let negate = (x < 0 \<and> is_odd_integer y); r = \<bar>x\<bar> powr y
         in if \<bar>x\<bar> = 1 then Inr (Fin (if negate then - 1 else 1))
            else if overflow_threshold \<le> r then Inl OverflowError
            else Inr (fl_round (if negate then - r else r))))"

fun py_pow :: "pyfloat \<Rightarrow> pyfloat \<Rightarrow> py_error + pyfloat" where
  "py_pow a (Fin y) =
     (if y = 0 then Inr (Fin 1)
      else (case a of
              NaN \<Rightarrow> Inr NaN
            | PInf \<Rightarrow> Inr (if 0 < y then PInf else Fin 0)
            | NInf \<Rightarrow> Inr (if 0 < y then (if is_odd_integer y then NInf else PInf) else Fin 0)
            | Fin x \<Rightarrow> pow_finite x y))"
| "py_pow a NaN = (if a = Fin 1 then Inr (Fin 1) else Inr NaN)"
| "py_pow a PInf =
     (case a of
        NaN \<Rightarrow> Inr NaN
      | Fin x \<Rightarrow> Inr (if \<bar>x\<bar> = 1 then Fin 1 else if 1 < \<bar>x\<bar> then PInf else Fin 0)
      | _ \<Rightarrow> Inr PInf)"
| "py_pow a NInf =
     (case a of
        NaN \<Rightarrow> Inr NaN
      | Fin x \<Rightarrow> Inr (if \<bar>x\<bar> = 1 then Fin 1 else if 1 < \<bar>x\<bar> then Fin 0 else PInf)
      | _ \<Rightarrow> Inr (Fin 0))"






section \<open>The input parameters\<close>

text \<open>
  The values read from the input widgets (lines 20 to 37 of alt_tool.py): finite numbers.
\<close>

record ParameterSet =
  T_use_C :: real
  RH_use :: real
  Ea :: real
  confidence :: real
  reliability :: real
  beta :: real
  T_stress_C :: real
  RH_stress :: real
  n :: real
  m :: real
  D_uv :: real
  D_tc :: real
  D_mech :: real
  L :: real

text \<open>The widgets' default values.\<close>

definition default_params :: ParameterSet where
  "default_params =
     \<lparr>T_use_C = 25, RH_use = 50, Ea = 9 / 10, confidence = 9 / 10, reliability = 9 / 10,
      beta = 1, T_stress_C = 85, RH_stress = 85, n = 3, m = 2, D_uv = 8 / 10,
      D_tc = 9 / 10, D_mech = 95 / 100, L = 24 * 365 * 10\<rparr>"


text \<open>Boltzmann constant in eV/K: \<open>k = 8.617e-5\<close>.\<close>

definition k :: real where
  "k = 8617 / 100000000"

definition T_use_K :: "ParameterSet \<Rightarrow> pyfloat" where
  "T_use_K p = fadd (Fin (T_use_C p)) (Fin (27315 / 100))"

definition T_stress_K :: "ParameterSet \<Rightarrow> pyfloat" where
  "T_stress_K p = fadd (Fin (T_stress_C p)) (Fin (27315 / 100))"

section \<open>Acceleration factors\<close>

text \<open>
  The expression \<open>math.exp((Ea/k) * ((1/T_use_K) - (1/T_stress_K)))\<close>, which lines 91, 92
  and 93 each evaluate, operands left to right.
\<close>

definition exp_term :: "ParameterSet \<Rightarrow> py_error + pyfloat" where
  "exp_term p =
     bind (py_div (Fin (Ea p)) (Fin k)) (\<lambda>a.
     bind (py_div (Fin 1) (T_use_K p)) (\<lambda>u.
     bind (py_div (Fin 1) (T_stress_K p)) (\<lambda>s.
     math_exp (fmul a (fsub u s)))))"

definition AF_arrhenius :: "ParameterSet \<Rightarrow> py_error + pyfloat" where
  "AF_arrhenius p = exp_term p"

definition AF_peck :: "ParameterSet \<Rightarrow> py_error + pyfloat" where
  "AF_peck p =
     bind (py_div (Fin (RH_use p)) (Fin (RH_stress p))) (\<lambda>ratio.
     bind (py_pow ratio (fneg (Fin (n p)))) (\<lambda>hum.
     bind (exp_term p) (\<lambda>e. Inr (fmul hum e))))"

definition AF_eyring :: "ParameterSet \<Rightarrow> py_error + pyfloat" where
  "AF_eyring p =
     bind (py_div (Fin (RH_stress p)) (Fin (RH_use p))) (\<lambda>ratio.
     bind (py_pow ratio (Fin (m p))) (\<lambda>hum.
     bind (exp_term p) (\<lambda>e. Inr (fmul hum e))))"

definition AF_eyring_total :: "ParameterSet \<Rightarrow> pyfloat \<Rightarrow> pyfloat" where
  "AF_eyring_total p af_eyring =
     fmul (fmul (fmul af_eyring (Fin (D_uv p))) (Fin (D_tc p))) (Fin (D_mech p))"

text \<open>
  Lines 91 to 94 in order: the four factors, as the list
  \<open>[AF_arrhenius, AF_peck, AF_eyring, AF_eyring_total]\<close> that lines 106 and 128 use.
  The first exception ends the script.
\<close>

definition computeAccelerationFactors :: "ParameterSet \<Rightarrow> py_error + pyfloat list" where
  "computeAccelerationFactors p =
     bind (AF_arrhenius p) (\<lambda>a.
     bind (AF_peck p) (\<lambda>pk.
     bind (AF_eyring p) (\<lambda>ey.
     Inr [a, pk, ey, AF_eyring_total p ey])))"

section \<open>Point test times and the summary table\<close>





section \<open>Zero-failure test times by sample size\<close>


text \<open>
  \<open>test_time_exponential\<close> and \<open>test_time_weibull\<close> read the globals \<open>L\<close>, \<open>confidence\<close>,
  \<open>reliability\<close> and \<open>beta\<close>; the model passes the whole parameter set. \<open>N\<close> is an \<open>int\<close>
  and \<open>AF\<close> a float.
\<close>

definition test_time_exponential ::
    "ParameterSet \<Rightarrow> int \<Rightarrow> pyfloat \<Rightarrow> py_error + pyfloat" where
  "test_time_exponential p N AF =
     bind (float_of_int N) (\<lambda>fN.
     bind (py_div (Fin (L p)) (fmul fN AF)) (\<lambda>a.
     bind (math_log (fsub (Fin 1) (Fin (confidence p)))) (\<lambda>lc.
     bind (math_log (Fin (reliability p))) (\<lambda>lr.
     bind (py_div lc lr) (\<lambda>q. Inr (fmul a q))))))"

definition test_time_weibull ::
    "ParameterSet \<Rightarrow> int \<Rightarrow> pyfloat \<Rightarrow> py_error + pyfloat" where
  "test_time_weibull p N AF =
     bind (math_log (fsub (Fin 1) (Fin (confidence p)))) (\<lambda>lc.
     bind (py_div (Fin 1) (Fin (beta p))) (\<lambda>e.
     bind (py_pow (fneg lc) e) (\<lambda>term.
     bind (py_div (Fin (L p)) AF) (\<lambda>a.
     bind (py_div (Fin 1) (Fin (beta p))) (\<lambda>e'.
     bind (float_of_int N) (\<lambda>fN.
     bind (py_pow fN e') (\<lambda>d.
     py_div (fmul a term) d)))))))"







section \<open>The specification's side\<close>


text \<open>
  The closed forms of the specification (its operations computeAccelerationFactors,
  exponentialTestTime and weibullTestTime), written after its words over the reals, to
  compare the code with.
\<close>

definition spec_E :: "ParameterSet \<Rightarrow> real" where
  "spec_E p =
     exp ((Ea p / k) * (1 / (T_use_C p + 27315 / 100) - 1 / (T_stress_C p + 27315 / 100)))"

definition spec_AFs :: "ParameterSet \<Rightarrow> real list" where
  "spec_AFs p =
     [spec_E p,
      (RH_use p / RH_stress p) powr (- n p) * spec_E p,
      (RH_stress p / RH_use p) powr (m p) * spec_E p,
      (RH_stress p / RH_use p) powr (m p) * spec_E p * D_uv p * D_tc p * D_mech p]"

definition spec_exponentialTestTime :: "ParameterSet \<Rightarrow> real \<Rightarrow> int \<Rightarrow> real" where
  "spec_exponentialTestTime p AF N =
     (L p / (of_int N * AF)) * (ln (1 - confidence p) / ln (reliability p))"

definition spec_weibullTestTime :: "ParameterSet \<Rightarrow> real \<Rightarrow> int \<Rightarrow> real" where
  "spec_weibullTestTime p AF N =
     (L p / AF) * (- ln (1 - confidence p)) powr (1 / beta p) / (of_int N powr (1 / beta p))"



section \<open>Ranges of the inputs\<close>

text \<open>
  \<open>mag e r\<close>: the magnitude of \<open>r\<close> lies between \<open>10^-e\<close> and \<open>10^e\<close>. A result with
  \<open>e \<le> 300\<close> is inside the range of the doubles, far from both ends.
\<close>

definition mag :: "nat \<Rightarrow> real \<Rightarrow> bool" where
  "mag e r \<longleftrightarrow> 1 / 10 ^ e \<le> \<bar>r\<bar> \<and> \<bar>r\<bar> \<le> 10 ^ e"

text \<open>
  A box of inputs of lines 91 to 94 on which no intermediate result leaves the range of
  the doubles: Kelvin temperatures between 100 and 10000, equal or at least \<open>10^-9\<close>
  apart, an activation energy between 0.001 and 2, humidities between 0.01 and 100,
  humidity exponents of magnitude at most 10, derating factors between 0.001 and 1. The
  widgets' defaults lie inside.
\<close>

definition factor_inputs_in_range :: "ParameterSet \<Rightarrow> bool" where
  "factor_inputs_in_range p \<longleftrightarrow>
     100 \<le> T_use_C p + 27315 / 100 \<and> T_use_C p + 27315 / 100 \<le> 10000 \<and>
     100 \<le> T_stress_C p + 27315 / 100 \<and> T_stress_C p + 27315 / 100 \<le> 10000 \<and>
     (T_use_C p = T_stress_C p \<or> 1 / 10 ^ 9 \<le> \<bar>T_use_C p - T_stress_C p\<bar>) \<and>
     1 / 1000 \<le> Ea p \<and> Ea p \<le> 2 \<and>
     1 / 100 \<le> RH_use p \<and> RH_use p \<le> 100 \<and>
     1 / 100 \<le> RH_stress p \<and> RH_stress p \<le> 100 \<and>
     \<bar>n p\<bar> \<le> 10 \<and> \<bar>m p\<bar> \<le> 10 \<and>
     1 / 1000 \<le> D_uv p \<and> D_uv p \<le> 1 \<and>
     1 / 1000 \<le> D_tc p \<and> D_tc p \<le> 1 \<and>
     1 / 1000 \<le> D_mech p \<and> D_mech p \<le> 1"


section \<open>Parameter sets for evaluation\<close>

text \<open>
  \<open>unit_params\<close>: every factor is 1 (equal temperatures and humidities, no derating),
  target life 1, confidence and reliability 1/2. Then the variants used below.
\<close>

definition unit_params :: ParameterSet where
  "unit_params =
     \<lparr>T_use_C = 25, RH_use = 50, Ea = 9 / 10, confidence = 1 / 2, reliability = 1 / 2,
      beta = 1, T_stress_C = 25, RH_stress = 50, n = 3, m = 2, D_uv = 1,
      D_tc = 1, D_mech = 1, L = 1\<rparr>"

definition high_activation_params :: ParameterSet where
  "high_activation_params = default_params\<lparr>Ea := 200\<rparr>"

definition small_shape_params :: ParameterSet where
  "small_shape_params = default_params\<lparr>beta := 1 / 2000\<rparr>"


definition negative_shape_params :: ParameterSet where
  "negative_shape_params = unit_params\<lparr>beta := - 1\<rparr>"

definition over_reliable_params :: ParameterSet where
  "over_reliable_params = unit_params\<lparr>reliability := 2\<rparr>"

definition dry_params :: ParameterSet where
  "dry_params = unit_params\<lparr>RH_use := 0, n := 0\<rparr>"

section \<open>Facts about the float operations and the script\<close>

lemma bind_Inr [simp]: "bind (Inr v) f = f v"
  by (simp add: bind_def)

lemma bind_Inl [simp]: "bind (Inl e) f = Inl e"
  by (simp add: bind_def)

lemma k_pos: "0 < k"
  by (simp add: k_def)

lemma ten_pow_300: "(10::real) ^ 300 < 2 ^ 1000"
proof -
  have e3: "(300::nat) = 3 * 100" and e10: "(1000::nat) = 10 * 100" by simp_all
  have "((10::real) ^ 3) ^ 100 < (2 ^ 10) ^ 100"
  proof (rule power_strict_mono)
    show "(10::real) ^ 3 < 2 ^ 10" by simp
    show "(0::real) \<le> 10 ^ 3" by simp
    show "0 < (100::nat)" by simp
  qed
  then have "(10::real) ^ (3 * 100) < 2 ^ (10 * 100)" by (simp only: power_mult)
  then show ?thesis by (simp only: e3 e10)
qed

lemma two_pow_1023: "(2::real) ^ 1023 \<le> overflow_threshold"
proof -
  have "(2::real) ^ 970 \<le> 2 ^ 1023" by (intro power_increasing) simp_all
  moreover have "(2::real) ^ Suc 1023 = 2 * 2 ^ 1023" by (rule power_Suc)
  moreover have "Suc 1023 = 1024" by simp
  ultimately show ?thesis unfolding overflow_threshold_def by (metis add_diff_cancel_left' diff_mono mult_2 order_refl)
qed

lemma range_upper: "(10::real) ^ 300 < overflow_threshold"
proof -
  have "(2::real) ^ 1000 \<le> 2 ^ 1023" by (intro power_increasing) simp_all
  with ten_pow_300 two_pow_1023 show ?thesis by linarith
qed

lemma range_lower: "underflow_threshold < 1 / (10::real) ^ 300"
proof -
  have "(2::real) ^ 1000 \<le> 2 ^ 1075" by (intro power_increasing) simp_all
  with ten_pow_300 have "(10::real) ^ 300 < 2 ^ 1075" by linarith
  then show ?thesis
    unfolding underflow_threshold_def
    by (intro divide_strict_left_mono) simp_all
qed

lemma overflow_threshold_le: "overflow_threshold \<le> 2 ^ 1024"
  unfolding overflow_threshold_def by (simp only: diff_le_eq) simp

lemma underflow_threshold_pos: "0 < underflow_threshold"
  unfolding underflow_threshold_def by (intro divide_pos_pos) simp_all

lemma pow10_pos: "(0::real) < 10 ^ e"
  by simp

lemma pow10_mono: "a \<le> b \<Longrightarrow> (10::real) ^ a \<le> 10 ^ b"
  by (intro power_increasing) simp_all

lemma inv_pow10_mono: "a \<le> b \<Longrightarrow> 1 / (10::real) ^ b \<le> 1 / 10 ^ a"
  by (intro frac_le pow10_mono) simp_all

lemma mag_nonzero: "mag e r \<Longrightarrow> r \<noteq> 0"
proof
  assume "mag e r" and "r = 0"
  then have "1 / (10::real) ^ e \<le> 0" by (simp add: mag_def)
  moreover have "(0::real) < 1 / 10 ^ e" by simp
  ultimately show False by linarith
qed

lemma magI:
  assumes "1 / 10 ^ e \<le> \<bar>r\<bar>" and "\<bar>r\<bar> \<le> 10 ^ e"
  shows "mag e r"
  using assms unfolding mag_def by blast

lemma mag_pos_I:
  assumes "1 / 10 ^ e \<le> r" and "r \<le> 10 ^ e"
  shows "mag e r"
proof -
  have "(0::real) < 1 / 10 ^ e" by simp
  with assms(1) have "0 < r" by linarith
  then have "\<bar>r\<bar> = r" by simp
  with assms show ?thesis unfolding mag_def by simp
qed

lemma mag_upper: "mag e r \<Longrightarrow> \<bar>r\<bar> \<le> 10 ^ e"
  unfolding mag_def by blast

lemma mag_lower: "mag e r \<Longrightarrow> 1 / 10 ^ e \<le> \<bar>r\<bar>"
  unfolding mag_def by blast

lemma mag_mono:
  assumes "mag a r" and "a \<le> b"
  shows "mag b r"
proof -
  have "1 / (10::real) ^ b \<le> 1 / 10 ^ a" using assms(2) by (rule inv_pow10_mono)
  moreover have "(10::real) ^ a \<le> 10 ^ b" using assms(2) by (rule pow10_mono)
  ultimately show ?thesis
    using mag_lower [OF assms(1)] mag_upper [OF assms(1)] unfolding mag_def by linarith
qed

lemma mag_mult:
  assumes "mag a x" and "mag b y"
  shows "mag (a + b) (x * y)"
proof -
  have "(1 / 10 ^ a) * (1 / 10 ^ b) \<le> \<bar>x\<bar> * \<bar>y\<bar>"
    using mag_lower [OF assms(1)] mag_lower [OF assms(2)] by (intro mult_mono) simp_all
  moreover have "\<bar>x\<bar> * \<bar>y\<bar> \<le> 10 ^ a * 10 ^ b"
    using mag_upper [OF assms(1)] mag_upper [OF assms(2)] by (intro mult_mono) simp_all
  ultimately show ?thesis
    unfolding mag_def abs_mult power_add by simp
qed

lemma mag_inverse:
  assumes "mag e y"
  shows "mag e (1 / y)"
proof -
  have ypos: "0 < \<bar>y\<bar>" using mag_nonzero [OF assms] by simp
  have "1 / \<bar>y\<bar> \<le> 1 / (1 / 10 ^ e)"
    using mag_lower [OF assms] by (intro frac_le) simp_all
  then have u: "1 / \<bar>y\<bar> \<le> 10 ^ e" by simp
  have l: "1 / 10 ^ e \<le> 1 / \<bar>y\<bar>"
    using mag_upper [OF assms] ypos by (intro frac_le) simp_all
  show ?thesis using u l unfolding mag_def by simp
qed

lemma mag_divide:
  assumes "mag a x" and "mag b y"
  shows "mag (a + b) (x / y)"
  using mag_mult [OF assms(1) mag_inverse [OF assms(2)]] by simp

lemma mag_minus: "mag e x \<Longrightarrow> mag e (- x)"
  unfolding mag_def by simp

lemma mag_of_int:
  assumes "1 \<le> N" and "N \<le> 10 ^ e"
  shows "mag e (of_int N)"
proof (rule mag_pos_I)
  have "1 / (10::real) ^ e \<le> 1" by simp
  also have "\<dots> \<le> of_int N" using assms(1) by simp
  finally show "1 / 10 ^ e \<le> (of_int N :: real)" .
  have "(of_int N :: real) \<le> of_int (10 ^ e)" using assms(2) by (simp only: of_int_le_iff)
  then show "(of_int N :: real) \<le> 10 ^ e" by simp
qed

lemma exp_le_ten_power:
  assumes "x \<le> real (2 * M)"
  shows "exp x \<le> 10 ^ M"
proof -
  have "exp x \<le> exp (real (2 * M) * 1)" using assms by simp
  also have "\<dots> = exp 1 ^ (2 * M)" by (rule exp_of_nat_mult)
  also have "\<dots> \<le> 3 ^ (2 * M)" using exp_le by (intro power_mono) simp_all
  also have "\<dots> = (9::real) ^ M" by (simp add: power_mult)
  also have "\<dots> \<le> 10 ^ M" by (intro power_mono) simp_all
  finally show ?thesis .
qed

lemma mag_exp:
  assumes "\<bar>x\<bar> \<le> real (2 * M)"
  shows "mag M (exp x)"
proof (rule mag_pos_I)
  show "exp x \<le> 10 ^ M" using assms by (intro exp_le_ten_power) linarith
  have "exp (- x) \<le> 10 ^ M" using assms by (intro exp_le_ten_power) linarith
  then have "1 / exp x \<le> 10 ^ M" by (simp add: exp_minus inverse_eq_divide)
  then have "1 \<le> 10 ^ M * exp x" by (simp add: field_simps)
  then show "1 / 10 ^ M \<le> exp x" by (simp add: field_simps)
qed

lemma mag_powr:
  assumes "0 < b" and "mag a b" and "\<bar>e\<bar> \<le> real M"
  shows "mag (a * M) (b powr e)"
proof (rule mag_pos_I)
  define B :: real where "B = 10 ^ a"
  have B: "0 < B" and B1: "1 \<le> B" by (simp_all add: B_def)
  have lo: "1 / B \<le> b" and hi: "b \<le> B"
    using mag_lower [OF assms(2)] mag_upper [OF assms(2)] assms(1) by (simp_all add: B_def)
  have lnB: "0 \<le> ln B" using B1 by simp
  have "ln b \<le> ln B" using hi assms(1) by simp
  moreover have "- ln B \<le> ln b"
  proof -
    have "ln (1 / B) \<le> ln b" using lo B assms(1) by simp
    then show ?thesis using B by (simp add: ln_div)
  qed
  ultimately have "\<bar>ln b\<bar> \<le> ln B" by simp
  then have "\<bar>e * ln b\<bar> \<le> real M * ln B"
    unfolding abs_mult using assms(3) lnB by (intro mult_mono) simp_all
  then have u: "e * ln b \<le> real M * ln B" and l: "- (real M * ln B) \<le> e * ln b"
    by simp_all
  have p: "exp (real M * ln B) = B ^ M"
    using B by (simp add: exp_of_nat_mult)
  have BM: "B ^ M = 10 ^ (a * M)" by (simp add: B_def power_mult)
  have v: "b powr e = exp (e * ln b)" using assms(1) by (simp add: powr_def)
  have "exp (e * ln b) \<le> exp (real M * ln B)" using u by simp
  then show "b powr e \<le> 10 ^ (a * M)" using v p BM by simp
  have "exp (- (real M * ln B)) \<le> exp (e * ln b)" using l by simp
  then have "1 / B ^ M \<le> exp (e * ln b)" using p by (simp add: exp_minus inverse_eq_divide)
  then show "1 / 10 ^ (a * M) \<le> b powr e" using v BM by simp
qed

lemma fl_round_zero [simp]: "fl_round 0 = Fin 0"
  using underflow_threshold_pos by (simp add: fl_round_def)

lemma fl_round_mag:
  assumes "mag e r" and "e \<le> 300"
  shows "fl_round r = Fin r"
proof -
  have m: "mag 300 r" using assms by (rule mag_mono)
  have a: "\<not> \<bar>r\<bar> \<le> underflow_threshold" using mag_lower [OF m] range_lower by linarith
  have b: "\<not> overflow_threshold \<le> r" using mag_upper [OF m] range_upper by linarith
  have c: "\<not> r \<le> - overflow_threshold" using mag_upper [OF m] range_upper by linarith
  show ?thesis by (simp only: fl_round_def fl_sum_def a b c if_False)
qed

lemma fl_sum_small:
  assumes "\<bar>r\<bar> \<le> 10 ^ 300"
  shows "fl_sum r = Fin r"
proof -
  have b: "\<not> overflow_threshold \<le> r" using assms range_upper by linarith
  have c: "\<not> r \<le> - overflow_threshold" using assms range_upper by linarith
  show ?thesis by (simp only: fl_sum_def b c if_False)
qed

lemma fl_sum_le_one:
  assumes "\<bar>r\<bar> \<le> 10 ^ e" and "e \<le> 300"
  shows "fl_sum r = Fin r"
proof -
  have "(10::real) ^ e \<le> 10 ^ 300" using assms(2) by (rule pow10_mono)
  with assms(1) have "\<bar>r\<bar> \<le> 10 ^ 300" by linarith
  then show ?thesis by (rule fl_sum_small)
qed

lemma py_div_Fin:
  assumes "y \<noteq> 0" and "mag e (x / y)" and "e \<le> 300"
  shows "py_div (Fin x) (Fin y) = Inr (Fin (x / y))"
  using assms(1) fl_round_mag [OF assms(2,3)] by (simp add: py_div_def)


lemma fmul_Fin:
  assumes "mag e (x * y)" and "e \<le> 300"
  shows "fmul (Fin x) (Fin y) = Fin (x * y)"
  using fl_round_mag [OF assms] by simp

lemma fsub_Fin:
  assumes "\<bar>x - y\<bar> \<le> 10 ^ e" and "e \<le> 300"
  shows "fsub (Fin x) (Fin y) = Fin (x - y)"
  using fl_sum_le_one [OF assms] by (simp add: fsub_def)

lemma fadd_Fin:
  assumes "\<bar>x + y\<bar> \<le> 10 ^ e" and "e \<le> 300"
  shows "fadd (Fin x) (Fin y) = Fin (x + y)"
  using fl_sum_le_one [OF assms] by simp

lemma math_exp_Fin:
  assumes "mag e (exp x)" and "e \<le> 300"
  shows "math_exp (Fin x) = Inr (Fin (exp x))"
proof -
  have "\<bar>exp x\<bar> \<le> 10 ^ 300" using mag_upper [OF mag_mono [OF assms]] .
  then have "\<not> overflow_threshold \<le> exp x" using range_upper by linarith
  then show ?thesis using fl_round_mag [OF assms] by simp
qed

lemma math_log_Fin: "0 < x \<Longrightarrow> math_log (Fin x) = Inr (Fin (ln x))"
  by simp

lemma py_pow_pos:
  assumes "0 < x" and "mag e (x powr y)" and "e \<le> 300"
  shows "py_pow (Fin x) (Fin y) = Inr (Fin (x powr y))"
proof (cases "y = 0")
  case True
  then show ?thesis using assms(1) by simp
next
  case False
  have r: "fl_round (x powr y) = Fin (x powr y)" using assms(2,3) by (rule fl_round_mag)
  have "\<bar>x powr y\<bar> \<le> 10 ^ 300" using mag_upper [OF mag_mono [OF assms(2,3)]] .
  then have o: "\<not> overflow_threshold \<le> x powr y" using range_upper by linarith
  show ?thesis
  proof (cases "x = 1")
    case True
    then show ?thesis using False by (simp add: pow_finite_def)
  next
    case x1: False
    then show ?thesis
      using False assms(1) r o by (simp add: pow_finite_def Let_def)
  qed
qed

lemma float_of_int_small:
  assumes "1 \<le> N" and "N \<le> 10 ^ e" and "e \<le> 300"
  shows "float_of_int N = Inr (Fin (of_int N))"
proof -
  have "\<bar>of_int N :: real\<bar> \<le> 10 ^ 300"
    using mag_upper [OF mag_mono [OF mag_of_int [OF assms(1,2)] assms(3)]] .
  then have "\<not> overflow_threshold \<le> \<bar>of_int N :: real\<bar>" using range_upper by linarith
  then show ?thesis by (simp add: float_of_int_def)
qed

lemma mag_k: "mag 5 k"
  by (rule mag_pos_I) (simp_all add: k_def)

lemma mag_between:
  assumes "1 / 10 ^ e \<le> lo" and "lo \<le> r" and "r \<le> hi" and "hi \<le> 10 ^ e"
  shows "mag e r"
  using assms by (intro mag_pos_I) linarith+

lemma kelvin_value:
  assumes "100 \<le> t + 27315 / 100" and "t + 27315 / 100 \<le> 10000"
  shows "fadd (Fin t) (Fin (27315 / 100)) = Fin (t + 27315 / 100)"
    and "mag 4 (t + 27315 / 100)"
    and "py_div (Fin 1) (Fin (t + 27315 / 100)) = Inr (Fin (1 / (t + 27315 / 100)))"
    and "mag 4 (1 / (t + 27315 / 100))"
proof -
  show m: "mag 4 (t + 27315 / 100)"
    using assms by (intro mag_between [where lo = 100 and hi = 10000]) simp_all
  then show mi: "mag 4 (1 / (t + 27315 / 100))" by (rule mag_inverse)
  have "\<bar>t + 27315 / 100\<bar> \<le> 10 ^ 4" using assms by simp
  then show "fadd (Fin t) (Fin (27315 / 100)) = Fin (t + 27315 / 100)"
    by (rule fadd_Fin) simp
  show "py_div (Fin 1) (Fin (t + 27315 / 100)) = Inr (Fin (1 / (t + 27315 / 100)))"
    using mag_nonzero [OF m] mi by (intro py_div_Fin [where e = 4]) simp_all
qed

lemma inverse_difference:
  fixes x y :: real
  assumes "100 \<le> x" "x \<le> 10000" "100 \<le> y" "y \<le> 10000"
  shows "\<bar>1 / x - 1 / y\<bar> \<le> 1 / 100"
    and "1 / 10 ^ 9 \<le> \<bar>x - y\<bar> \<Longrightarrow> 1 / 10 ^ 17 \<le> \<bar>1 / x - 1 / y\<bar>"
proof -
  have x: "0 < x" and y: "0 < y" using assms by simp_all
  have ix: "0 < 1 / x" "1 / x \<le> 1 / 100" using assms by (simp_all add: field_simps)
  have iy: "0 < 1 / y" "1 / y \<le> 1 / 100" using assms by (simp_all add: field_simps)
  show "\<bar>1 / x - 1 / y\<bar> \<le> 1 / 100" using ix iy by linarith
  assume "1 / 10 ^ 9 \<le> \<bar>x - y\<bar>"
  then have d: "1 / 10 ^ 9 \<le> \<bar>y - x\<bar>" by (simp only: abs_minus_commute)
  have e: "1 / x - 1 / y = (y - x) / (x * y)"
    using x y by (simp add: field_simps)
  have xy: "0 < x * y" using x y by simp
  have xy2: "x * y \<le> 10000 * 10000"
    using assms x y by (intro mult_mono) simp_all
  have "(1 / 10 ^ 9) / (10000 * 10000) \<le> \<bar>y - x\<bar> / (x * y)"
    using d xy xy2 by (intro frac_le) simp_all
  moreover have "(1 / 10 ^ 9) / (10000 * 10000) = 1 / (10::real) ^ 17" by simp
  moreover have "\<bar>1 / x - 1 / y\<bar> = \<bar>y - x\<bar> / (x * y)"
    unfolding e abs_divide using xy by simp
  ultimately show "1 / 10 ^ 17 \<le> \<bar>1 / x - 1 / y\<bar>" by simp
qed

lemma exp_term_value:
  assumes "factor_inputs_in_range p"
  shows "exp_term p = Inr (Fin (spec_E p))" and "mag 117 (spec_E p)" and "0 < spec_E p"
proof -
  define tu where "tu = T_use_C p + 27315 / 100"
  define ts where "ts = T_stress_C p + 27315 / 100"
  define a where "a = Ea p / k"
  define d where "d = 1 / tu - 1 / ts"
  have tu: "100 \<le> tu" "tu \<le> 10000" and ts: "100 \<le> ts" "ts \<le> 10000"
    and ea: "1 / 1000 \<le> Ea p" "Ea p \<le> 2"
    and apart: "T_use_C p = T_stress_C p \<or> 1 / 10 ^ 9 \<le> \<bar>T_use_C p - T_stress_C p\<bar>"
    using assms by (simp_all add: factor_inputs_in_range_def tu_def ts_def)
  have ku: "T_use_K p = Fin tu" and ks: "T_stress_K p = Fin ts"
    unfolding T_use_K_def T_stress_K_def tu_def ts_def
    using tu ts by (simp_all only: tu_def ts_def kelvin_value(1))
  have u: "py_div (Fin 1) (Fin tu) = Inr (Fin (1 / tu))"
    unfolding tu_def using tu by (simp only: tu_def kelvin_value(3))
  have s: "py_div (Fin 1) (Fin ts) = Inr (Fin (1 / ts))"
    unfolding ts_def using ts by (simp only: ts_def kelvin_value(3))
  have mEa: "mag 3 (Ea p)"
    using ea by (intro mag_between [where lo = "1 / 1000" and hi = 2]) simp_all
  have ma: "mag 8 a"
    unfolding a_def using mag_divide [OF mEa mag_k] by simp
  have av: "py_div (Fin (Ea p)) (Fin k) = Inr (Fin a)"
    unfolding a_def using k_pos ma by (intro py_div_Fin [where e = 8]) (simp_all add: a_def)
  have dsmall: "\<bar>d\<bar> \<le> 1 / 100"
    unfolding d_def using tu ts by (rule inverse_difference(1))
  have dv: "fsub (Fin (1 / tu)) (Fin (1 / ts)) = Fin d"
    unfolding d_def using dsmall by (intro fsub_Fin [where e = 0]) (simp_all add: d_def)
  have apos: "0 < a" and aup: "a \<le> 2 / k"
    unfolding a_def using ea k_pos by (simp_all add: divide_right_mono)
  have xv: "fmul (Fin a) (Fin d) = Fin (a * d)"
  proof (cases "T_use_C p = T_stress_C p")
    case True
    then have "d = 0" by (simp add: d_def tu_def ts_def)
    then show ?thesis by simp
  next
    case False
    with apart have "1 / 10 ^ 9 \<le> \<bar>tu - ts\<bar>" by (simp add: tu_def ts_def)
    then have "1 / 10 ^ 17 \<le> \<bar>d\<bar>"
      unfolding d_def using tu ts by (intro inverse_difference(2))
    moreover have "\<bar>d\<bar> \<le> 10 ^ 17" using dsmall by simp
    ultimately have "mag 17 d" by (rule magI)
    then have "mag (8 + 17) (a * d)" using ma by (intro mag_mult)
    then show ?thesis by (rule fmul_Fin) simp
  qed
  have "\<bar>a * d\<bar> \<le> (2 / k) * (1 / 100)"
    unfolding abs_mult using apos aup dsmall k_pos by (intro mult_mono) simp_all
  also have "\<dots> \<le> real (2 * 117)" by (simp add: k_def)
  finally have xsmall: "\<bar>a * d\<bar> \<le> real (2 * 117)" .
  then have mE: "mag 117 (exp (a * d))" by (rule mag_exp)
  have ev: "math_exp (Fin (a * d)) = Inr (Fin (exp (a * d)))"
    using mE by (rule math_exp_Fin) simp
  have E: "spec_E p = exp (a * d)"
    by (simp only: spec_E_def a_def d_def tu_def ts_def)
  show "exp_term p = Inr (Fin (spec_E p))"
    by (simp only: exp_term_def ku ks av u s dv xv ev E bind_Inr)
  show "mag 117 (spec_E p)" using mE by (simp only: E)
  show "0 < spec_E p" by (simp add: spec_E_def)
qed

lemma humidity_power:
  assumes "1 / 100 \<le> x" "x \<le> 100" "1 / 100 \<le> y" "y \<le> 100" "\<bar>e\<bar> \<le> 10"
  shows "py_div (Fin x) (Fin y) = Inr (Fin (x / y))"
    and "py_pow (Fin (x / y)) (Fin e) = Inr (Fin ((x / y) powr e))"
    and "mag 40 ((x / y) powr e)"
    and "0 < (x / y) powr e"
proof -
  have mx: "mag 2 x"
    using assms by (intro mag_between [where lo = "1 / 100" and hi = 100]) simp_all
  have my: "mag 2 y"
    using assms by (intro mag_between [where lo = "1 / 100" and hi = 100]) simp_all
  have mr: "mag 4 (x / y)" using mag_divide [OF mx my] by simp
  have pos: "0 < x / y" using assms by simp
  show "py_div (Fin x) (Fin y) = Inr (Fin (x / y))"
    using mag_nonzero [OF my] mr by (intro py_div_Fin [where e = 4]) simp_all
  have "\<bar>e\<bar> \<le> real 10" using assms by simp
  then have "mag (4 * 10) ((x / y) powr e)" using pos mr by (intro mag_powr)
  then show mp: "mag 40 ((x / y) powr e)" by simp
  show "py_pow (Fin (x / y)) (Fin e) = Inr (Fin ((x / y) powr e))"
    using pos mp by (intro py_pow_pos [where e = 40]) simp_all
  have "x / y \<noteq> 0" using pos by linarith
  then show "0 < (x / y) powr e" using powr_gt_zero by blast
qed

lemma derating_value:
  assumes "mag 157 a" and "0 < a"
    and "1 / 1000 \<le> d1" "d1 \<le> 1" "1 / 1000 \<le> d2" "d2 \<le> 1" "1 / 1000 \<le> d3" "d3 \<le> 1"
  shows "fmul (fmul (fmul (Fin a) (Fin d1)) (Fin d2)) (Fin d3) = Fin (a * d1 * d2 * d3)"
    and "mag 166 (a * d1 * d2 * d3)" and "0 < a * d1 * d2 * d3"
proof -
  have m1: "mag 3 d1"
    using assms by (intro mag_between [where lo = "1 / 1000" and hi = 1]) simp_all
  have m2: "mag 3 d2"
    using assms by (intro mag_between [where lo = "1 / 1000" and hi = 1]) simp_all
  have m3: "mag 3 d3"
    using assms by (intro mag_between [where lo = "1 / 1000" and hi = 1]) simp_all
  have a1: "mag 160 (a * d1)" using mag_mult [OF assms(1) m1] by simp
  have a2: "mag 163 (a * d1 * d2)" using mag_mult [OF a1 m2] by simp
  show a3: "mag 166 (a * d1 * d2 * d3)" using mag_mult [OF a2 m3] by simp
  have s1: "fmul (Fin a) (Fin d1) = Fin (a * d1)" using a1 by (rule fmul_Fin) simp
  have s2: "fmul (Fin (a * d1)) (Fin d2) = Fin (a * d1 * d2)" using a2 by (rule fmul_Fin) simp
  have s3: "fmul (Fin (a * d1 * d2)) (Fin d3) = Fin (a * d1 * d2 * d3)"
    using a3 by (rule fmul_Fin) simp
  show "fmul (fmul (fmul (Fin a) (Fin d1)) (Fin d2)) (Fin d3) = Fin (a * d1 * d2 * d3)"
    by (simp only: s1 s2 s3)
  have "0 < d1" "0 < d2" "0 < d3" using assms by simp_all
  then show "0 < a * d1 * d2 * d3" using assms(2) by simp
qed

lemma computeAccelerationFactors_value:
  assumes "factor_inputs_in_range p"
  shows "computeAccelerationFactors p = Inr (map Fin (spec_AFs p))"
    and "\<And>a. a \<in> set (spec_AFs p) \<Longrightarrow> 0 < a \<and> mag 166 a"
proof -
  define E where "E = spec_E p"
  define pk where "pk = (RH_use p / RH_stress p) powr (- n p) * E"
  define ey where "ey = (RH_stress p / RH_use p) powr (m p) * E"
  have rh: "1 / 100 \<le> RH_use p" "RH_use p \<le> 100" "1 / 100 \<le> RH_stress p" "RH_stress p \<le> 100"
    and nm: "\<bar>- n p\<bar> \<le> 10" "\<bar>m p\<bar> \<le> 10"
    and d: "1 / 1000 \<le> D_uv p" "D_uv p \<le> 1" "1 / 1000 \<le> D_tc p" "D_tc p \<le> 1"
      "1 / 1000 \<le> D_mech p" "D_mech p \<le> 1"
    using assms by (simp_all add: factor_inputs_in_range_def)
  have e: "exp_term p = Inr (Fin E)" and mE: "mag 117 E" and Epos: "0 < E"
    unfolding E_def using assms by (rule exp_term_value)+
  note hp = humidity_power [OF rh(1,2,3,4) nm(1)]
  note he = humidity_power [OF rh(3,4,1,2) nm(2)]
  have mpk: "mag 157 pk" unfolding pk_def using mag_mult [OF hp(3) mE] by simp
  have mey: "mag 157 ey" unfolding ey_def using mag_mult [OF he(3) mE] by simp
  have pkpos: "0 < pk" unfolding pk_def using hp(4) Epos by (rule mult_pos_pos)
  have eypos: "0 < ey" unfolding ey_def using he(4) Epos by (rule mult_pos_pos)
  have pkv: "fmul (Fin ((RH_use p / RH_stress p) powr (- n p))) (Fin E) = Fin pk"
    unfolding pk_def using mpk by (intro fmul_Fin [where e = 157]) (simp_all add: pk_def)
  have eyv: "fmul (Fin ((RH_stress p / RH_use p) powr (m p))) (Fin E) = Fin ey"
    unfolding ey_def using mey by (intro fmul_Fin [where e = 157]) (simp_all add: ey_def)
  note dv = derating_value [OF mey eypos d]
  have peck: "AF_peck p = Inr (Fin pk)"
    by (simp only: AF_peck_def fneg.simps hp(1) hp(2) e pkv bind_Inr)
  have eyring: "AF_eyring p = Inr (Fin ey)"
    by (simp only: AF_eyring_def he(1) he(2) e eyv bind_Inr)
  have afs: "spec_AFs p = [E, pk, ey, ey * D_uv p * D_tc p * D_mech p]"
    by (simp only: spec_AFs_def E_def pk_def ey_def)
  show "computeAccelerationFactors p = Inr (map Fin (spec_AFs p))"
    by (simp only: computeAccelerationFactors_def AF_arrhenius_def e peck eyring
        AF_eyring_total_def dv(1) afs bind_Inr list.map)
  fix a assume "a \<in> set (spec_AFs p)"
  then have "a = E \<or> a = pk \<or> a = ey \<or> a = ey * D_uv p * D_tc p * D_mech p"
    by (simp add: afs)
  moreover have "mag 166 E" using mE by (rule mag_mono) simp
  moreover have "mag 166 pk" using mpk by (rule mag_mono) simp
  moreover have "mag 166 ey" using mey by (rule mag_mono) simp
  ultimately show "0 < a \<and> mag 166 a"
    using Epos pkpos eypos dv(2,3) by blast
qed

lemma ln_bounds:
  fixes x :: real
  assumes "1 / 1000 \<le> x" and "x \<le> 999 / 1000"
  shows "ln x \<le> - (1 / 1000)" and "- 999 \<le> ln x" and "mag 3 (ln x)" and "ln x < 0"
proof -
  have x: "0 < x" using assms by simp
  have "ln x \<le> x - 1" using x by (rule ln_le_minus_one)
  then show u: "ln x \<le> - (1 / 1000)" using assms by simp
  have "ln (1 / x) \<le> 1 / x - 1" using x by (intro ln_le_minus_one) simp
  moreover have "1 / x \<le> 1000" using assms x by (simp add: field_simps)
  moreover have "ln (1 / x) = - ln x" using x by (simp add: ln_div)
  ultimately show l: "- 999 \<le> ln x" by simp
  show "ln x < 0" using u by simp
  have "1 / 10 ^ 3 \<le> \<bar>ln x\<bar>" using u by simp
  moreover have "\<bar>ln x\<bar> \<le> 10 ^ 3" using u l by simp
  ultimately show "mag 3 (ln x)" by (rule magI)
qed

lemma log_one_minus:
  assumes "1 / 1000 \<le> c" and "c \<le> 999 / 1000"
  shows "math_log (fsub (Fin 1) (Fin c)) = Inr (Fin (ln (1 - c)))"
proof -
  have "\<bar>1 - c\<bar> \<le> 10 ^ 0" using assms by simp
  then have "fsub (Fin 1) (Fin c) = Fin (1 - c)" by (rule fsub_Fin) simp
  moreover have "0 < 1 - c" using assms by simp
  ultimately show ?thesis by simp
qed

lemma test_time_exponential_value:
  assumes "1 \<le> N" and "N \<le> 10 ^ 6" and "0 < a" and "mag 170 a"
    and "0 < L p" and "mag 10 (L p)"
    and "1 / 1000 \<le> confidence p" and "confidence p \<le> 999 / 1000"
    and "1 / 1000 \<le> reliability p" and "reliability p \<le> 999 / 1000"
  shows "test_time_exponential p N (Fin a) = Inr (Fin (spec_exponentialTestTime p a N))"
    and "0 < spec_exponentialTestTime p a N"
    and "mag 192 (spec_exponentialTestTime p a N)"
proof -
  define lc where "lc = ln (1 - confidence p)"
  define lr where "lr = ln (reliability p)"
  have c1: "1 / 1000 \<le> 1 - confidence p" "1 - confidence p \<le> 999 / 1000"
    using assms by simp_all
  have mlc: "mag 3 lc" and lcn: "lc < 0"
    unfolding lc_def using c1 by (rule ln_bounds)+
  have mlr: "mag 3 lr" and lrn: "lr < 0"
    unfolding lr_def using assms(9,10) by (rule ln_bounds)+
  have mN: "mag 6 (of_int N)" using assms(1,2) by (rule mag_of_int)
  have mNa: "mag 176 (of_int N * a)" using mag_mult [OF mN assms(4)] by simp
  have mA: "mag 186 (L p / (of_int N * a))" using mag_divide [OF assms(6) mNa] by simp
  have mq: "mag 6 (lc / lr)" using mag_divide [OF mlc mlr] by simp
  have mt: "mag 192 (L p / (of_int N * a) * (lc / lr))" using mag_mult [OF mA mq] by simp
  have s1: "float_of_int N = Inr (Fin (of_int N))"
    using assms(1,2) by (rule float_of_int_small) simp
  have s2: "fmul (Fin (of_int N)) (Fin a) = Fin (of_int N * a)"
    using mNa by (rule fmul_Fin) simp
  have s3: "py_div (Fin (L p)) (Fin (of_int N * a)) = Inr (Fin (L p / (of_int N * a)))"
    using mag_nonzero [OF mNa] mA by (intro py_div_Fin [where e = 186]) simp_all
  have s4: "math_log (fsub (Fin 1) (Fin (confidence p))) = Inr (Fin lc)"
    unfolding lc_def using assms(7,8) by (rule log_one_minus)
  have s5: "math_log (Fin (reliability p)) = Inr (Fin lr)"
    unfolding lr_def using assms(9) by simp
  have s6: "py_div (Fin lc) (Fin lr) = Inr (Fin (lc / lr))"
    using mag_nonzero [OF mlr] mq by (intro py_div_Fin [where e = 6]) simp_all
  have s7: "fmul (Fin (L p / (of_int N * a))) (Fin (lc / lr)) =
      Fin (L p / (of_int N * a) * (lc / lr))"
    using mt by (rule fmul_Fin) simp
  have v: "spec_exponentialTestTime p a N = L p / (of_int N * a) * (lc / lr)"
    by (simp only: spec_exponentialTestTime_def lc_def lr_def)
  show "test_time_exponential p N (Fin a) = Inr (Fin (spec_exponentialTestTime p a N))"
    by (simp only: test_time_exponential_def s1 s2 s3 s4 s5 s6 s7 v bind_Inr)
  show "mag 192 (spec_exponentialTestTime p a N)" using mt by (simp only: v)
  have "(0::real) < of_int N" using assms(1) by simp
  then have "0 < of_int N * a" using assms(3) by (rule mult_pos_pos)
  then have "0 < L p / (of_int N * a)" using assms(5) by (intro divide_pos_pos)
  moreover have "0 < lc / lr" using lcn lrn by (rule divide_neg_neg)
  ultimately show "0 < spec_exponentialTestTime p a N"
    unfolding v by (rule mult_pos_pos)
qed

lemma test_time_weibull_value:
  assumes "1 \<le> N" and "N \<le> 100" and "0 < a" and "mag 170 a"
    and "0 < L p" and "mag 10 (L p)"
    and "1 / 1000 \<le> confidence p" and "confidence p \<le> 999 / 1000"
    and "1 / 10 \<le> \<bar>beta p\<bar>" and "\<bar>beta p\<bar> \<le> 100"
  shows "test_time_weibull p N (Fin a) = Inr (Fin (spec_weibullTestTime p a N))"
    and "0 < spec_weibullTestTime p a N"
    and "mag 230 (spec_weibullTestTime p a N)"
proof -
  define b where "b = - ln (1 - confidence p)"
  define e where "e = 1 / beta p"
  define t where "t = b powr e"
  define d where "d = of_int N powr e"
  have c1: "1 / 1000 \<le> 1 - confidence p" "1 - confidence p \<le> 999 / 1000"
    using assms by simp_all
  have mb: "mag 3 b" unfolding b_def using ln_bounds(3) [OF c1] by (rule mag_minus)
  have bpos: "0 < b" unfolding b_def using ln_bounds(4) [OF c1] by simp
  have mbeta: "mag 2 (beta p)"
    using assms(9,10) by (intro magI) simp_all
  have bnz: "beta p \<noteq> 0" using mbeta by (rule mag_nonzero)
  have me: "mag 2 e" unfolding e_def using mbeta by (rule mag_inverse)
  have "\<bar>e\<bar> = 1 / \<bar>beta p\<bar>" by (simp add: e_def abs_divide)
  also have "\<dots> \<le> 1 / (1 / 10)" using assms(9) by (intro frac_le) simp_all
  finally have esmall: "\<bar>e\<bar> \<le> real 10" by simp
  have mt: "mag 30 t"
    unfolding t_def using mag_powr [OF bpos mb esmall] by simp
  have N100: "N \<le> 10 ^ 2" using assms(2) by simp
  have mN: "mag 2 (of_int N)" using assms(1) N100 by (rule mag_of_int)
  have Npos: "(0::real) < of_int N" using assms(1) by simp
  have md: "mag 20 d"
    unfolding d_def using mag_powr [OF Npos mN esmall] by simp
  have mA: "mag 180 (L p / a)" using mag_divide [OF assms(6,4)] by simp
  have mAt: "mag 210 (L p / a * t)" using mag_mult [OF mA mt] by simp
  have mr: "mag 230 (L p / a * t / d)" using mag_divide [OF mAt md] by simp
  have s1: "math_log (fsub (Fin 1) (Fin (confidence p))) = Inr (Fin (- b))"
    unfolding b_def using log_one_minus [OF assms(7,8)] by simp
  have s1': "fneg (Fin (- b)) = Fin b" by simp
  have s2: "py_div (Fin 1) (Fin (beta p)) = Inr (Fin e)"
    unfolding e_def using bnz me by (intro py_div_Fin [where e = 2]) (simp_all add: e_def)
  have s3: "py_pow (Fin b) (Fin e) = Inr (Fin t)"
    unfolding t_def using bpos mt by (intro py_pow_pos [where e = 30]) (simp_all add: t_def)
  have s4: "py_div (Fin (L p)) (Fin a) = Inr (Fin (L p / a))"
    using assms(3) mA by (intro py_div_Fin [where e = 180]) simp_all
  have s5: "float_of_int N = Inr (Fin (of_int N))"
    using assms(1) N100 by (rule float_of_int_small) simp
  have s6: "py_pow (Fin (of_int N)) (Fin e) = Inr (Fin d)"
    unfolding d_def using Npos md by (intro py_pow_pos [where e = 20]) (simp_all add: d_def)
  have s7: "fmul (Fin (L p / a)) (Fin t) = Fin (L p / a * t)"
    using mAt by (rule fmul_Fin) simp
  have s8: "py_div (Fin (L p / a * t)) (Fin d) = Inr (Fin (L p / a * t / d))"
    using mag_nonzero [OF md] mr by (intro py_div_Fin [where e = 230]) simp_all
  have v: "spec_weibullTestTime p a N = L p / a * t / d"
    by (simp only: spec_weibullTestTime_def t_def d_def b_def e_def)
  show "test_time_weibull p N (Fin a) = Inr (Fin (spec_weibullTestTime p a N))"
    by (simp only: test_time_weibull_def s1 s1' s2 s3 s4 s5 s6 s7 s8 v bind_Inr)
  show "mag 230 (spec_weibullTestTime p a N)" using mr by (simp only: v)
  have tpos: "0 < t" unfolding t_def using bpos powr_gt_zero [of b e] by simp
  have dpos: "0 < d" unfolding d_def using Npos powr_gt_zero [of "of_int N" e] by simp
  have "0 < L p / a" using assms(5,3) by (rule divide_pos_pos)
  then have "0 < L p / a * t" using tpos by (rule mult_pos_pos)
  then show "0 < spec_weibullTestTime p a N"
    unfolding v using dpos by (rule divide_pos_pos)
qed













lemma exp_ge_two_power:
  assumes "real M \<le> x"
  shows "2 ^ M \<le> exp x"
proof -
  have "(2::real) \<le> exp 1" using exp_ge_add_one_self [of 1] by simp
  then have "(2::real) ^ M \<le> exp 1 ^ M" by (intro power_mono) simp_all
  also have "\<dots> = exp (real M * 1)" by (rule exp_of_nat_mult [symmetric])
  also have "\<dots> \<le> exp x" using assms by simp
  finally show ?thesis .
qed

lemma overflow_threshold_le_power:
  assumes "1024 \<le> M"
  shows "overflow_threshold \<le> 2 ^ M"
proof -
  have "(2::real) ^ 1024 \<le> 2 ^ M" using assms by (intro power_increasing) simp_all
  with overflow_threshold_le show ?thesis by linarith
qed

lemma mag_one: "mag 0 1"
  by (rule mag_pos_I) simp_all

lemma fl_round_one [simp]: "fl_round 1 = Fin 1"
  using mag_one by (rule fl_round_mag) simp

lemma fl_round_minus_one [simp]: "fl_round (- 1) = Fin (- 1)"
  using mag_minus [OF mag_one] by (rule fl_round_mag) simp

lemma fl_sum_half [simp]: "fl_sum (1 / 2) = Fin (1 / 2)"
  by (rule fl_sum_le_one [where e = 0]) simp_all

lemma factor_argument:
  assumes "1 / 10 ^ 100 \<le> a" and "a \<le> 10 ^ 100"
  shows "0 < a" and "mag 170 a"
proof -
  have "(0::real) < 1 / 10 ^ 100" by simp
  with assms(1) show "0 < a" by linarith
  have "mag 100 a" using assms by (rule mag_pos_I)
  then show "mag 170 a" by (rule mag_mono) simp
qed

lemma life_argument:
  assumes "1 / 10 ^ 10 \<le> L p" and "L p \<le> 10 ^ 10"
  shows "0 < L p" and "mag 10 (L p)"
proof -
  have "(0::real) < 1 / 10 ^ 10" by simp
  with assms(1) show "0 < L p" by linarith
  show "mag 10 (L p)" using assms by (rule mag_pos_I)
qed

lemma ln_ten_ge_two: "2 \<le> ln (10::real)"
proof -
  have "exp (real 2 * 1) = exp 1 ^ 2" by (rule exp_of_nat_mult)
  also have "\<dots> \<le> 3 ^ 2" using exp_le by (intro power_mono) simp_all
  finally have "exp 2 \<le> (10::real)" by simp
  then show ?thesis by (simp add: ln_ge_iff)
qed











lemma divide_less_left:
  fixes a x y :: real
  assumes "0 < a" and "0 < x" and "x < y"
  shows "a / y < a / x"
proof -
  have "0 < y * x" using assms by simp
  with assms show ?thesis by (intro divide_strict_left_mono)
qed

lemma unit_arguments:
  shows "1 / 10 ^ 100 \<le> (1::real)" and "(1::real) \<le> 10 ^ 100"
  by simp_all

lemma AF_eyring_zero_use: "RH_use p = 0 \<Longrightarrow> AF_eyring p = Inl ZeroDivisionError"
  by (simp add: AF_eyring_def py_div_def)

lemma AF_peck_zero_use:
  assumes "RH_use p = 0"
  shows "AF_peck p =
           (if RH_stress p = 0 \<or> 0 < n p then Inl ZeroDivisionError
            else bind (exp_term p) (\<lambda>e. Inr (fmul (Fin (if n p = 0 then 1 else 0)) e)))"
  using assms by (simp add: AF_peck_def py_div_def pow_finite_def)

lemma zero_use_fails:
  assumes "RH_use p = 0"
  shows "isl (computeAccelerationFactors p)"
proof -
  have e: "AF_eyring p = Inl ZeroDivisionError"
    using assms by (rule AF_eyring_zero_use)
  show ?thesis
    unfolding computeAccelerationFactors_def
    by (cases "AF_arrhenius p"; cases "AF_peck p") (simp_all add: e)
qed

lemma zero_kelvin_fails:
  assumes "T_use_K p = Fin 0"
  shows "exp_term p = Inl ZeroDivisionError"
  using assms k_pos by (simp add: exp_term_def py_div_def)

lemma overflow_threshold_gt_one: "1 < overflow_threshold"
proof -
  have "(1::real) \<le> 10 ^ 300" by simp
  with range_upper show ?thesis by linarith
qed

lemma log_one_minus_cases:
  "math_log (fsub (Fin 1) (Fin c)) =
     (if 1 \<le> c then Inl ValueError
      else if overflow_threshold \<le> 1 - c then Inr PInf else Inr (Fin (ln (1 - c))))"
  using overflow_threshold_gt_one by (auto simp add: fsub_def fl_sum_def)

section \<open>The acceleration factors\<close>

text \<open>
  Claim C1, as stated, fails: with the default values and \<open>Ea = 200\<close> both Kelvin
  temperatures and both humidities are positive, yet \<open>math.exp\<close> overflows at line 91
  and the script raises \<open>OverflowError\<close>.
\<close>

theorem C1_counterexample:
  "0 < T_use_C high_activation_params + 273.15 \<and>
   0 < T_stress_C high_activation_params + 273.15 \<and>
   0 < RH_use high_activation_params \<and> 0 < RH_stress high_activation_params \<and>
   computeAccelerationFactors high_activation_params = Inl OverflowError"
proof -
  define a :: real where "a = 200 / k"
  define d :: real where "d = 1 / (25 + 27315 / 100) - 1 / (85 + 27315 / 100)"
  have ku: "T_use_K high_activation_params = Fin (25 + 27315 / 100)"
    unfolding T_use_K_def high_activation_params_def default_params_def
    using kelvin_value(1) [of 25] by simp
  have ks: "T_stress_K high_activation_params = Fin (85 + 27315 / 100)"
    unfolding T_stress_K_def high_activation_params_def default_params_def
    using kelvin_value(1) [of 85] by simp
  have u: "py_div (Fin 1) (Fin (25 + 27315 / 100)) = Inr (Fin (1 / (25 + 27315 / 100)))"
    by (rule kelvin_value(3)) simp_all
  have s: "py_div (Fin 1) (Fin (85 + 27315 / 100)) = Inr (Fin (1 / (85 + 27315 / 100)))"
    by (rule kelvin_value(3)) simp_all
  have ma: "mag 7 a" unfolding a_def by (rule mag_pos_I) (simp_all add: k_def)
  have av: "py_div (Fin 200) (Fin k) = Inr (Fin a)"
    unfolding a_def using k_pos ma by (intro py_div_Fin [where e = 7]) (simp_all add: a_def)
  have dv: "fsub (Fin (1 / (25 + 27315 / 100))) (Fin (1 / (85 + 27315 / 100))) = Fin d"
    unfolding d_def by (rule fsub_Fin [where e = 0]) simp_all
  have md: "mag 4 d" unfolding d_def by (rule mag_pos_I) simp_all
  have xv: "fmul (Fin a) (Fin d) = Fin (a * d)"
    using mag_mult [OF ma md] by (intro fmul_Fin [where e = 11]) simp_all
  have "real 1024 \<le> a * d" by (simp add: a_def d_def k_def)
  then have "2 ^ 1024 \<le> exp (a * d)" by (rule exp_ge_two_power)
  then have "overflow_threshold \<le> exp (a * d)"
    using overflow_threshold_le by linarith
  then have ev: "math_exp (Fin (a * d)) = Inl OverflowError" by simp
  have ea: "Ea high_activation_params = 200"
    by (simp add: high_activation_params_def)
  have "exp_term high_activation_params = Inl OverflowError"
    by (simp only: exp_term_def ku ks ea av u s dv xv ev bind_Inr)
  then have "computeAccelerationFactors high_activation_params = Inl OverflowError"
    by (simp add: computeAccelerationFactors_def AF_arrhenius_def)
  then show ?thesis
    by (simp add: high_activation_params_def default_params_def)
qed

text \<open>
  Claim C1, amended. On the box \<open>factor_inputs_in_range\<close> lines 91 to 94 raise nothing
  and give finite factors: with \<open>E = exp ((Ea / k) * (1 / T_use_K - 1 / T_stress_K))\<close>,
  \<open>k = 8.617e-5\<close> and \<open>K = C + 273.15\<close>, Arrhenius \<open>E\<close>, Peck
  \<open>(RH_use / RH_stress) ^ (- n) * E\<close>, Eyring \<open>(RH_stress / RH_use) ^ m * E\<close>, and
  Eyring with derating the Eyring factor times \<open>D_uv * D_tc * D_mech\<close>.
\<close>

theorem C1_acceleration_factors:
  assumes "factor_inputs_in_range p"
  shows "let E = exp ((Ea p / (8.617 / 100000)) *
                      (1 / (T_use_C p + 273.15) - 1 / (T_stress_C p + 273.15)))
         in computeAccelerationFactors p =
            Inr [Fin E,
                 Fin ((RH_use p / RH_stress p) powr (- n p) * E),
                 Fin ((RH_stress p / RH_use p) powr (m p) * E),
                 Fin ((RH_stress p / RH_use p) powr (m p) * E * D_uv p * D_tc p * D_mech p)]"
  using computeAccelerationFactors_value(1) [OF assms]
  by (simp add: Let_def spec_AFs_def spec_E_def k_def)

text \<open>
  The theorem at the widgets' default values.
\<close>

theorem C1_acceleration_factors_witness:
  "factor_inputs_in_range default_params \<and>
   computeAccelerationFactors default_params =
     Inr [Fin (exp (9 / 10 / (8.617 / 100000) * (1 / 298.15 - 1 / 358.15))),
          Fin ((50 / 85) powr (- 3) * exp (9 / 10 / (8.617 / 100000) * (1 / 298.15 - 1 / 358.15))),
          Fin ((85 / 50) powr 2 * exp (9 / 10 / (8.617 / 100000) * (1 / 298.15 - 1 / 358.15))),
          Fin ((85 / 50) powr 2 * exp (9 / 10 / (8.617 / 100000) * (1 / 298.15 - 1 / 358.15))
                 * (8 / 10) * (9 / 10) * (95 / 100))]"
proof -
  have b: "factor_inputs_in_range default_params"
    by (simp add: factor_inputs_in_range_def default_params_def)
  show ?thesis
    using b C1_acceleration_factors [OF b]
    by (simp add: default_params_def Let_def)
qed

section \<open>The test-time formulas\<close>

text \<open>
  Claim C2, as stated, fails: at \<open>N = 2\<close> and \<open>AF = 2^1023\<close> (a finite double) the
  product \<open>N * AF\<close> is an infinity, \<open>L / (N * AF)\<close> is 0, and \<open>test_time_exponential\<close>
  returns 0, which is not strictly positive.
\<close>

theorem C2_counterexample:
  "(1::int) \<le> 2 \<and> (0::real) < 2 ^ 1023 \<and> 0 < L unit_params \<and>
   0 < confidence unit_params \<and> confidence unit_params < 1 \<and>
   0 < reliability unit_params \<and> reliability unit_params < 1 \<and>
   test_time_exponential unit_params 2 (Fin (2 ^ 1023)) = Inr (Fin 0)"
proof -
  have s1: "float_of_int 2 = Inr (Fin (of_int 2))"
    by (rule float_of_int_small [where e = 1]) simp_all
  have "(2::real) * 2 ^ 1023 = 2 ^ Suc 1023" by (rule power_Suc [symmetric])
  then have p: "of_int 2 * (2::real) ^ 1023 = 2 ^ 1024" by simp
  have big: "overflow_threshold \<le> of_int 2 * (2::real) ^ 1023"
    unfolding p by (rule overflow_threshold_le)
  have "underflow_threshold < 1 / (10::real) ^ 300" by (rule range_lower)
  also have "\<dots> \<le> 1" by simp
  also have "\<dots> \<le> (2::real) ^ 1024" by (rule one_le_power) simp
  finally have "\<not> \<bar>of_int 2 * (2::real) ^ 1023\<bar> \<le> underflow_threshold"
    unfolding p by simp
  then have s2: "fmul (Fin (of_int 2)) (Fin (2 ^ 1023)) = PInf"
    using big by (simp only: fmul.simps fl_round_def fl_sum_def if_True if_False)
  have s3: "py_div (Fin (L unit_params)) PInf = Inr (Fin 0)"
    by (simp add: py_div_def)
  have c: "1 / 1000 \<le> confidence unit_params" "confidence unit_params \<le> 999 / 1000"
    by (simp_all add: unit_params_def)
  have s4: "math_log (fsub (Fin 1) (Fin (confidence unit_params))) =
      Inr (Fin (ln (1 - confidence unit_params)))"
    using c by (rule log_one_minus)
  have s5: "math_log (Fin (reliability unit_params)) = Inr (Fin (ln (reliability unit_params)))"
    by (simp add: unit_params_def)
  have l2: "ln (2::real) \<noteq> 0" by simp
  have s6: "py_div (Fin (ln (1 - confidence unit_params))) (Fin (ln (reliability unit_params)))
      = Inr (Fin 1)"
    using l2 by (simp add: unit_params_def py_div_def ln_div)
  have s7: "fmul (Fin 0) (Fin 1) = Fin 0" by simp
  have "test_time_exponential unit_params 2 (Fin (2 ^ 1023)) = Inr (Fin 0)"
    by (simp only: test_time_exponential_def s1 s2 s3 s4 s5 s6 s7 bind_Inr)
  moreover have "(0::real) < 2 ^ 1023" by (rule zero_less_power) simp
  ultimately show ?thesis
    by (simp only: unit_params_def ParameterSet.simps) simp
qed

text \<open>
  Claim C2, amended. For a sample size \<open>N\<close> from 1 to \<open>10^6\<close>, \<open>AF\<close> between
  \<open>10^-100\<close> and \<open>10^100\<close>, \<open>L\<close> between \<open>10^-10\<close> and \<open>10^10\<close>, and confidence and
  reliability between 0.001 and 0.999, \<open>test_time_exponential\<close> raises nothing, returns
  the finite value \<open>(L / (N * AF)) * (ln (1 - confidence) / ln reliability)\<close>, and that
  value is strictly positive.
\<close>

theorem C2_exponential_formula:
  assumes "1 \<le> N" and "N \<le> 10 ^ 6"
    and "1 / 10 ^ 100 \<le> a" and "a \<le> 10 ^ 100"
    and "1 / 10 ^ 10 \<le> L p" and "L p \<le> 10 ^ 10"
    and "1 / 1000 \<le> confidence p" and "confidence p \<le> 999 / 1000"
    and "1 / 1000 \<le> reliability p" and "reliability p \<le> 999 / 1000"
  shows "test_time_exponential p N (Fin a) =
           Inr (Fin ((L p / (of_int N * a)) * (ln (1 - confidence p) / ln (reliability p))))
         \<and> 0 < (L p / (of_int N * a)) * (ln (1 - confidence p) / ln (reliability p))"
  using test_time_exponential_value(1,2)
    [OF assms(1,2) factor_argument [OF assms(3,4)] life_argument [OF assms(5,6)] assms(7-10)]
  unfolding spec_exponentialTestTime_def by blast

text \<open>
  At \<open>N = 1\<close>, \<open>AF = 1\<close>, \<open>L = 1\<close> and confidence = reliability = 1/2 the time is 1.
\<close>

theorem C2_exponential_formula_witness:
  "(1::int) \<le> 1 \<and> (1::int) \<le> 10 ^ 6 \<and> 1 / 10 ^ 100 \<le> (1::real) \<and> (1::real) \<le> 10 ^ 100 \<and>
   1 / 10 ^ 10 \<le> L unit_params \<and> L unit_params \<le> 10 ^ 10 \<and>
   1 / 1000 \<le> confidence unit_params \<and> confidence unit_params \<le> 999 / 1000 \<and>
   1 / 1000 \<le> reliability unit_params \<and> reliability unit_params \<le> 999 / 1000 \<and>
   test_time_exponential unit_params 1 (Fin 1) = Inr (Fin 1)"
proof -
  have h: "(1::int) \<le> 1" "(1::int) \<le> 10 ^ 6" "1 / 10 ^ 100 \<le> (1::real)" "(1::real) \<le> 10 ^ 100"
    "1 / 10 ^ 10 \<le> L unit_params" "L unit_params \<le> 10 ^ 10"
    "1 / 1000 \<le> confidence unit_params" "confidence unit_params \<le> 999 / 1000"
    "1 / 1000 \<le> reliability unit_params" "reliability unit_params \<le> 999 / 1000"
    by (simp_all add: unit_params_def)
  have "test_time_exponential unit_params 1 (Fin 1) = Inr (Fin 1)"
    using C2_exponential_formula [OF h] by (simp add: unit_params_def)
  with h show ?thesis by blast
qed

text \<open>
  Claim C3, as stated, fails: with the default values and \<open>beta = 1/2000\<close> the power
  \<open>(- ln (1 - confidence)) ** (1 / beta) = (ln 10) ** 2000\<close> overflows at line 122 and
  \<open>test_time_weibull\<close> raises \<open>OverflowError\<close>.
\<close>

theorem C3_counterexample:
  "(1::int) \<le> 1 \<and> (0::real) < 1 \<and> 0 < L small_shape_params \<and>
   0 < confidence small_shape_params \<and> confidence small_shape_params < 1 \<and>
   beta small_shape_params \<noteq> 0 \<and>
   test_time_weibull small_shape_params 1 (Fin 1) = Inl OverflowError"
proof -
  define b :: real where "b = - ln (1 - 9 / 10)"
  have bv: "b = ln 10" by (simp add: b_def ln_div)
  have b2: "2 \<le> b" unfolding bv by (rule ln_ten_ge_two)
  have s1: "math_log (fsub (Fin 1) (Fin (9 / 10))) = Inr (Fin (- b))"
    unfolding b_def using log_one_minus [of "9 / 10"] by simp
  have s1': "fneg (Fin (- b)) = Fin b" by simp
  have "mag 4 ((1::real) / (1 / 2000))" by (rule mag_pos_I) simp_all
  then have "py_div (Fin 1) (Fin (1 / 2000)) = Inr (Fin (1 / (1 / 2000)))"
    by (intro py_div_Fin [where e = 4]) simp_all
  then have s2: "py_div (Fin 1) (Fin (1 / 2000)) = Inr (Fin 2000)" by simp
  have "(2::real) powr 2000 \<le> b powr 2000" using b2 by (intro powr_mono2) simp_all
  moreover have "(2::real) powr 2000 = 2 ^ 2000"
    using powr_realpow [of 2 2000] by simp
  moreover have "overflow_threshold \<le> 2 ^ 2000"
    by (rule overflow_threshold_le_power) simp
  ultimately have big: "overflow_threshold \<le> b powr 2000" by linarith
  have s3: "py_pow (Fin b) (Fin 2000) = Inl OverflowError"
    using b2 big by (simp add: pow_finite_def Let_def)
  have f: "confidence small_shape_params = 9 / 10" "beta small_shape_params = 1 / 2000"
    by (simp_all add: small_shape_params_def default_params_def)
  have "test_time_weibull small_shape_params 1 (Fin 1) = Inl OverflowError"
    by (simp only: test_time_weibull_def f s1 s1' s2 s3 bind_Inr bind_Inl)
  then show ?thesis
    by (simp add: small_shape_params_def default_params_def)
qed

text \<open>
  Claim C3, amended. For a sample size \<open>N\<close> from 1 to 100, \<open>AF\<close> between \<open>10^-100\<close>
  and \<open>10^100\<close>, \<open>L\<close> between \<open>10^-10\<close> and \<open>10^10\<close>, confidence between 0.001 and
  0.999 and a shape of magnitude between 0.1 and 100, \<open>test_time_weibull\<close> raises
  nothing and returns the finite value \<open>(L / AF) * term / N ^ (1 / beta)\<close> with
  \<open>term = (- ln (1 - confidence)) ^ (1 / beta)\<close>.
\<close>

theorem C3_weibull_formula:
  assumes "1 \<le> N" and "N \<le> 100"
    and "1 / 10 ^ 100 \<le> a" and "a \<le> 10 ^ 100"
    and "1 / 10 ^ 10 \<le> L p" and "L p \<le> 10 ^ 10"
    and "1 / 1000 \<le> confidence p" and "confidence p \<le> 999 / 1000"
    and "1 / 10 \<le> \<bar>beta p\<bar>" and "\<bar>beta p\<bar> \<le> 100"
  shows "let term = (- ln (1 - confidence p)) powr (1 / beta p)
         in test_time_weibull p N (Fin a) =
              Inr (Fin ((L p / a) * term / (of_int N powr (1 / beta p))))"
  using test_time_weibull_value(1)
    [OF assms(1,2) factor_argument [OF assms(3,4)] life_argument [OF assms(5,6)] assms(7-10)]
  unfolding spec_weibullTestTime_def Let_def by blast

text \<open>
  At \<open>N = 1\<close>, \<open>AF = 1\<close>, \<open>L = 1\<close>, confidence 1/2 and \<open>beta = 1\<close> the time is \<open>ln 2\<close>.
\<close>

theorem C3_weibull_formula_witness:
  "(1::int) \<le> 1 \<and> (1::int) \<le> 100 \<and> 1 / 10 ^ 100 \<le> (1::real) \<and> (1::real) \<le> 10 ^ 100 \<and>
   1 / 10 ^ 10 \<le> L unit_params \<and> L unit_params \<le> 10 ^ 10 \<and>
   1 / 1000 \<le> confidence unit_params \<and> confidence unit_params \<le> 999 / 1000 \<and>
   1 / 10 \<le> \<bar>beta unit_params\<bar> \<and> \<bar>beta unit_params\<bar> \<le> 100 \<and>
   test_time_weibull unit_params 1 (Fin 1) = Inr (Fin (ln 2))"
proof -
  have h: "(1::int) \<le> 1" "(1::int) \<le> 100" "1 / 10 ^ 100 \<le> (1::real)" "(1::real) \<le> 10 ^ 100"
    "1 / 10 ^ 10 \<le> L unit_params" "L unit_params \<le> 10 ^ 10"
    "1 / 1000 \<le> confidence unit_params" "confidence unit_params \<le> 999 / 1000"
    "1 / 10 \<le> \<bar>beta unit_params\<bar>" "\<bar>beta unit_params\<bar> \<le> 100"
    by (simp_all add: unit_params_def)
  have "test_time_weibull unit_params 1 (Fin 1) = Inr (Fin (ln 2))"
    using C3_weibull_formula [OF h] by (simp add: unit_params_def Let_def ln_div)
  with h show ?thesis by blast
qed

section \<open>Positivity on valid parameter sets\<close>




section \<open>Monotonicity in the sample size\<close>

text \<open>
  Claim C5, as stated, fails: with \<open>beta = - 1\<close> the Weibull time is \<open>1 / ln 2\<close> at
  \<open>N = 1\<close> and \<open>2 / ln 2\<close> at \<open>N = 2\<close>, so it grows with the sample size.
\<close>

theorem C5_counterexample:
  "beta negative_shape_params \<noteq> 0 \<and>
   test_time_weibull negative_shape_params 1 (Fin 1) = Inr (Fin (1 / ln 2)) \<and>
   test_time_weibull negative_shape_params 2 (Fin 1) = Inr (Fin (2 / ln 2)) \<and>
   (1 / ln 2 :: real) < 2 / ln 2"
proof -
  have l: "(0::real) < ln 2" by simp
  have h: "0 < L negative_shape_params" "mag 10 (L negative_shape_params)"
    "1 / 1000 \<le> confidence negative_shape_params"
    "confidence negative_shape_params \<le> 999 / 1000"
    "1 / 10 \<le> \<bar>beta negative_shape_params\<bar>" "\<bar>beta negative_shape_params\<bar> \<le> 100"
    by (simp_all add: negative_shape_params_def unit_params_def mag_def)
  note a = factor_argument [OF unit_arguments]
  have "test_time_weibull negative_shape_params 1 (Fin 1) =
      Inr (Fin (spec_weibullTestTime negative_shape_params 1 1))"
    using a h by (intro test_time_weibull_value(1)) simp_all
  moreover have "spec_weibullTestTime negative_shape_params 1 1 = 1 / ln 2"
    using l by (simp add: spec_weibullTestTime_def negative_shape_params_def unit_params_def
        ln_div powr_minus inverse_eq_divide)
  moreover have "test_time_weibull negative_shape_params 2 (Fin 1) =
      Inr (Fin (spec_weibullTestTime negative_shape_params 1 2))"
    using a h by (intro test_time_weibull_value(1)) simp_all
  moreover have "spec_weibullTestTime negative_shape_params 1 2 = 2 / ln 2"
    using l by (simp add: spec_weibullTestTime_def negative_shape_params_def unit_params_def
        ln_div powr_minus inverse_eq_divide)
  moreover have "(1 / ln 2 :: real) < 2 / ln 2"
    using l by (simp add: divide_strict_right_mono)
  ultimately show ?thesis by (simp add: negative_shape_params_def)
qed

text \<open>
  Claim C5, amended. For sample sizes \<open>1 \<le> N1 < N2 \<le> 100\<close>, \<open>AF\<close> between \<open>10^-100\<close>
  and \<open>10^100\<close>, \<open>L\<close> between \<open>10^-10\<close> and \<open>10^10\<close>, confidence and reliability
  between 0.001 and 0.999 and a shape of magnitude between 0.1 and 100, neither function
  raises and both return finite times; the exponential time at \<open>N2\<close> is strictly less
  than at \<open>N1\<close>; the Weibull time at \<open>N2\<close> is strictly less than at \<open>N1\<close> when
  \<open>beta > 0\<close> and strictly greater when \<open>beta < 0\<close>.
\<close>

theorem C5_strictly_decreasing_in_N:
  assumes "1 \<le> N1" and "N1 < N2" and "N2 \<le> 100"
    and "1 / 10 ^ 100 \<le> a" and "a \<le> 10 ^ 100"
    and "1 / 10 ^ 10 \<le> L p" and "L p \<le> 10 ^ 10"
    and "1 / 1000 \<le> confidence p" and "confidence p \<le> 999 / 1000"
    and "1 / 1000 \<le> reliability p" and "reliability p \<le> 999 / 1000"
    and "1 / 10 \<le> \<bar>beta p\<bar>" and "\<bar>beta p\<bar> \<le> 100"
  shows "\<exists>e1 e2 w1 w2.
           test_time_exponential p N1 (Fin a) = Inr (Fin e1) \<and>
           test_time_exponential p N2 (Fin a) = Inr (Fin e2) \<and>
           test_time_weibull p N1 (Fin a) = Inr (Fin w1) \<and>
           test_time_weibull p N2 (Fin a) = Inr (Fin w2) \<and>
           e2 < e1 \<and> (if 0 < beta p then w2 < w1 else w1 < w2)"
proof -
  define q where "q = ln (1 - confidence p) / ln (reliability p)"
  define c where "c = (L p / a) * (- ln (1 - confidence p)) powr (1 / beta p)"
  note fa = factor_argument [OF assms(4,5)]
  note la = life_argument [OF assms(6,7)]
  have n1: "1 \<le> N1" "N1 \<le> 100" "N1 \<le> 10 ^ 6" and n2: "1 \<le> N2" "N2 \<le> 100" "N2 \<le> 10 ^ 6"
    using assms(1,2,3) by simp_all
  have r1: "(0::real) < of_int N1" and r2: "(0::real) < of_int N2"
    and lt: "(of_int N1 :: real) < of_int N2"
    using assms(1,2) by simp_all
  have c1: "1 / 1000 \<le> 1 - confidence p" "1 - confidence p \<le> 999 / 1000"
    using assms(8,9) by simp_all
  have qpos: "0 < q"
    unfolding q_def using ln_bounds(4) [OF c1] ln_bounds(4) [OF assms(10,11)]
    by (rule divide_neg_neg)
  have bpos: "0 < - ln (1 - confidence p)" using ln_bounds(4) [OF c1] by simp
  have cpos: "0 < c"
    unfolding c_def using la(1) fa(1) bpos powr_gt_zero [of "- ln (1 - confidence p)" "1 / beta p"]
    by (intro mult_pos_pos divide_pos_pos) simp_all
  have e1: "test_time_exponential p N1 (Fin a) = Inr (Fin ((L p / (of_int N1 * a)) * q))"
    using test_time_exponential_value(1) [OF n1(1,3) fa la assms(8-11)]
    by (simp only: spec_exponentialTestTime_def q_def)
  have e2: "test_time_exponential p N2 (Fin a) = Inr (Fin ((L p / (of_int N2 * a)) * q))"
    using test_time_exponential_value(1) [OF n2(1,3) fa la assms(8-11)]
    by (simp only: spec_exponentialTestTime_def q_def)
  have w1: "test_time_weibull p N1 (Fin a) = Inr (Fin (c / (of_int N1 powr (1 / beta p))))"
    using test_time_weibull_value(1) [OF n1(1,2) fa la assms(8,9,12,13)]
    by (simp only: spec_weibullTestTime_def c_def)
  have w2: "test_time_weibull p N2 (Fin a) = Inr (Fin (c / (of_int N2 powr (1 / beta p))))"
    using test_time_weibull_value(1) [OF n2(1,2) fa la assms(8,9,12,13)]
    by (simp only: spec_weibullTestTime_def c_def)
  have "of_int N1 * a < of_int N2 * a"
    using lt fa(1) by simp
  moreover have "0 < of_int N1 * a"
    using r1 fa(1) by simp
  ultimately have "L p / (of_int N2 * a) < L p / (of_int N1 * a)"
    using la(1) by (intro divide_less_left)
  then have de: "(L p / (of_int N2 * a)) * q < (L p / (of_int N1 * a)) * q"
    using qpos by (rule mult_strict_right_mono)
  have bnz: "beta p \<noteq> 0" using assms(12) by auto
  have dw: "if 0 < beta p
            then c / (of_int N2 powr (1 / beta p)) < c / (of_int N1 powr (1 / beta p))
            else c / (of_int N1 powr (1 / beta p)) < c / (of_int N2 powr (1 / beta p))"
  proof (cases "0 < beta p")
    case True
    then have "of_int N1 powr (1 / beta p) < (of_int N2 :: real) powr (1 / beta p)"
      using r1 lt by (intro powr_less_mono2) simp_all
    moreover have "0 < (of_int N1 :: real) powr (1 / beta p)"
      using r1 by simp
    ultimately have "c / (of_int N2 powr (1 / beta p)) < c / (of_int N1 powr (1 / beta p))"
      using cpos by (intro divide_less_left)
    then show ?thesis using True by simp
  next
    case False
    with bnz have neg: "1 / beta p < 0" by simp
    have "of_int N2 powr (1 / beta p) < (of_int N1 :: real) powr (1 / beta p)"
      using neg r1 lt by (intro powr_less_mono2_neg) simp_all
    moreover have "0 < (of_int N2 :: real) powr (1 / beta p)"
      using r2 by simp
    ultimately have "c / (of_int N1 powr (1 / beta p)) < c / (of_int N2 powr (1 / beta p))"
      using cpos by (intro divide_less_left)
    then show ?thesis using False by simp
  qed
  show ?thesis
    using e1 e2 w1 w2 de dw by blast
qed

text \<open>
  At \<open>N1 = 1\<close>, \<open>N2 = 2\<close>, \<open>AF = 1\<close> and \<open>beta = 1\<close> both times decrease.
\<close>

theorem C5_strictly_decreasing_in_N_witness:
  "(1::int) \<le> 1 \<and> (1::int) < 2 \<and> (2::int) \<le> 100 \<and>
   1 / 10 ^ 100 \<le> (1::real) \<and> (1::real) \<le> 10 ^ 100 \<and>
   1 / 10 ^ 10 \<le> L unit_params \<and> L unit_params \<le> 10 ^ 10 \<and>
   1 / 1000 \<le> confidence unit_params \<and> confidence unit_params \<le> 999 / 1000 \<and>
   1 / 1000 \<le> reliability unit_params \<and> reliability unit_params \<le> 999 / 1000 \<and>
   1 / 10 \<le> \<bar>beta unit_params\<bar> \<and> \<bar>beta unit_params\<bar> \<le> 100 \<and>
   (\<exists>e1 e2 w1 w2.
      test_time_exponential unit_params 1 (Fin 1) = Inr (Fin e1) \<and>
      test_time_exponential unit_params 2 (Fin 1) = Inr (Fin e2) \<and>
      test_time_weibull unit_params 1 (Fin 1) = Inr (Fin w1) \<and>
      test_time_weibull unit_params 2 (Fin 1) = Inr (Fin w2) \<and> e2 < e1 \<and> w2 < w1)"
proof -
  have h: "(1::int) \<le> 1" "(1::int) < 2" "(2::int) \<le> 100"
    "1 / 10 ^ 100 \<le> (1::real)" "(1::real) \<le> 10 ^ 100"
    "1 / 10 ^ 10 \<le> L unit_params" "L unit_params \<le> 10 ^ 10"
    "1 / 1000 \<le> confidence unit_params" "confidence unit_params \<le> 999 / 1000"
    "1 / 1000 \<le> reliability unit_params" "reliability unit_params \<le> 999 / 1000"
    "1 / 10 \<le> \<bar>beta unit_params\<bar>" "\<bar>beta unit_params\<bar> \<le> 100"
    by (simp_all add: unit_params_def)
  have b: "0 < beta unit_params" by (simp add: unit_params_def)
  have "\<exists>e1 e2 w1 w2.
      test_time_exponential unit_params 1 (Fin 1) = Inr (Fin e1) \<and>
      test_time_exponential unit_params 2 (Fin 1) = Inr (Fin e2) \<and>
      test_time_weibull unit_params 1 (Fin 1) = Inr (Fin w1) \<and>
      test_time_weibull unit_params 2 (Fin 1) = Inr (Fin w2) \<and> e2 < e1 \<and> w2 < w1"
    using C5_strictly_decreasing_in_N [OF h] b by simp
  with h show ?thesis by blast
qed

section \<open>The Weibull formula at shape 1 against the exponential formula\<close>

text \<open>
  Claim C6, as stated, fails: at confidence = reliability = 1/2 the condition
  \<open>ln reliability = - (- ln (1 - confidence))\<close> holds, yet the Weibull time at \<open>beta = 1\<close>
  is \<open>ln 2\<close> and the exponential time is 1.
\<close>

theorem C6_counterexample:
  "ln (reliability unit_params) = - (- ln (1 - confidence unit_params)) \<and>
   test_time_weibull unit_params 1 (Fin 1) = Inr (Fin (ln 2)) \<and>
   test_time_exponential unit_params 1 (Fin 1) = Inr (Fin 1) \<and>
   ln 2 \<noteq> (1::real)"
proof -
  have h: "0 < L unit_params" "mag 10 (L unit_params)"
    "1 / 1000 \<le> confidence unit_params" "confidence unit_params \<le> 999 / 1000"
    "1 / 1000 \<le> reliability unit_params" "reliability unit_params \<le> 999 / 1000"
    "1 / 10 \<le> \<bar>beta unit_params\<bar>" "\<bar>beta unit_params\<bar> \<le> 100"
    by (simp_all add: unit_params_def mag_def)
  note a = factor_argument [OF unit_arguments]
  have "test_time_weibull unit_params 1 (Fin 1) =
      Inr (Fin (spec_weibullTestTime unit_params 1 1))"
    using a h by (intro test_time_weibull_value(1)) simp_all
  moreover have "spec_weibullTestTime unit_params 1 1 = ln 2"
    by (simp add: spec_weibullTestTime_def unit_params_def ln_div)
  moreover have "test_time_exponential unit_params 1 (Fin 1) =
      Inr (Fin (spec_exponentialTestTime unit_params 1 1))"
    using a h by (intro test_time_exponential_value(1)) simp_all
  moreover have "spec_exponentialTestTime unit_params 1 1 = 1"
    by (simp add: spec_exponentialTestTime_def unit_params_def)
  moreover have "ln 2 \<noteq> (1::real)" using ln_2_less_1 by simp
  ultimately show ?thesis by (simp add: unit_params_def)
qed

text \<open>
  Claim C6, amended. For a sample size \<open>N\<close> from 1 to 100, \<open>AF\<close> between \<open>10^-100\<close>
  and \<open>10^100\<close>, \<open>L\<close> between \<open>10^-10\<close> and \<open>10^10\<close>, confidence between 0.001 and
  0.999 and reliability between 0.5 and 0.999, the Weibull time at \<open>beta = 1\<close> is
  strictly less than the exponential time: the two formulas are not equal there, whether
  or not \<open>ln reliability = - (- ln (1 - confidence))\<close>.
\<close>

theorem C6_weibull_below_exponential:
  assumes "1 \<le> N" and "N \<le> 100"
    and "1 / 10 ^ 100 \<le> a" and "a \<le> 10 ^ 100"
    and "1 / 10 ^ 10 \<le> L p" and "L p \<le> 10 ^ 10"
    and "1 / 1000 \<le> confidence p" and "confidence p \<le> 999 / 1000"
    and "1 / 2 \<le> reliability p" and "reliability p \<le> 999 / 1000"
    and "beta p = 1"
  shows "\<exists>w e. test_time_weibull p N (Fin a) = Inr (Fin w) \<and>
               test_time_exponential p N (Fin a) = Inr (Fin e) \<and> w < e"
proof -
  define b where "b = - ln (1 - confidence p)"
  define s where "s = - ln (reliability p)"
  define A where "A = L p / (of_int N * a)"
  note fa = factor_argument [OF assms(3,4)]
  note la = life_argument [OF assms(5,6)]
  have N6: "N \<le> 10 ^ 6" using assms(2) by simp
  have r3: "1 / 1000 \<le> reliability p" using assms(9) by simp
  have bt: "1 / 10 \<le> \<bar>beta p\<bar>" "\<bar>beta p\<bar> \<le> 100" using assms(11) by simp_all
  have c1: "1 / 1000 \<le> 1 - confidence p" "1 - confidence p \<le> 999 / 1000"
    using assms(7,8) by simp_all
  have bpos: "0 < b" unfolding b_def using ln_bounds(4) [OF c1] by simp
  have spos: "0 < s" unfolding s_def using ln_bounds(4) [OF r3 assms(10)] by simp
  have "ln (1 / 2) \<le> ln (reliability p)"
    using assms(9) by (intro ln_mono) simp_all
  then have "s \<le> ln 2" by (simp add: s_def ln_div)
  then have s1: "s < 1" using ln_2_less_1 by linarith
  have n: "(0::real) < of_int N" using assms(1) by simp
  have Apos: "0 < A" unfolding A_def using la(1) n fa(1) by simp
  have w: "test_time_weibull p N (Fin a) = Inr (Fin (spec_weibullTestTime p a N))"
    using test_time_weibull_value(1) [OF assms(1,2) fa la assms(7,8) bt] .
  have e: "test_time_exponential p N (Fin a) = Inr (Fin (spec_exponentialTestTime p a N))"
    using test_time_exponential_value(1) [OF assms(1) N6 fa la assms(7,8) r3 assms(10)] .
  have wv: "spec_weibullTestTime p a N = A * b"
    using bpos n by (simp add: spec_weibullTestTime_def assms(11) A_def b_def)
  have ev: "spec_exponentialTestTime p a N = A * (b / s)"
    by (simp add: spec_exponentialTestTime_def A_def b_def s_def)
  have "b * s < b * 1" using s1 bpos by (intro mult_strict_left_mono)
  then have "b < b / s" using spos by (simp add: field_simps)
  then have "A * b < A * (b / s)" using Apos by (intro mult_strict_left_mono)
  then have "spec_weibullTestTime p a N < spec_exponentialTestTime p a N"
    by (simp only: wv ev)
  with w e show ?thesis by blast
qed

text \<open>
  At confidence = reliability = 1/2, where the condition of the claim holds, the Weibull
  time is still strictly less.
\<close>

theorem C6_weibull_below_exponential_witness:
  "(1::int) \<le> 1 \<and> (1::int) \<le> 100 \<and> 1 / 10 ^ 100 \<le> (1::real) \<and> (1::real) \<le> 10 ^ 100 \<and>
   1 / 10 ^ 10 \<le> L unit_params \<and> L unit_params \<le> 10 ^ 10 \<and>
   1 / 1000 \<le> confidence unit_params \<and> confidence unit_params \<le> 999 / 1000 \<and>
   1 / 2 \<le> reliability unit_params \<and> reliability unit_params \<le> 999 / 1000 \<and>
   beta unit_params = 1 \<and>
   ln (reliability unit_params) = - (- ln (1 - confidence unit_params)) \<and>
   (\<exists>w e. test_time_weibull unit_params 1 (Fin 1) = Inr (Fin w) \<and>
           test_time_exponential unit_params 1 (Fin 1) = Inr (Fin e) \<and> w < e)"
proof -
  have h: "(1::int) \<le> 1" "(1::int) \<le> 100" "1 / 10 ^ 100 \<le> (1::real)" "(1::real) \<le> 10 ^ 100"
    "1 / 10 ^ 10 \<le> L unit_params" "L unit_params \<le> 10 ^ 10"
    "1 / 1000 \<le> confidence unit_params" "confidence unit_params \<le> 999 / 1000"
    "1 / 2 \<le> reliability unit_params" "reliability unit_params \<le> 999 / 1000"
    "beta unit_params = 1"
    by (simp_all add: unit_params_def)
  have c: "ln (reliability unit_params) = - (- ln (1 - confidence unit_params))"
    by (simp add: unit_params_def)
  note t = C6_weibull_below_exponential [OF h]
  show ?thesis using h c t by blast
qed

section \<open>Failures\<close>

text \<open>
  Claim C7, as stated, fails for the Peck model: with \<open>RH_use = 0\<close> and \<open>n = 0\<close> (equal
  temperatures, so \<open>E = 1\<close>) line 92 raises nothing and gives the finite factor 1.
\<close>

theorem C7_counterexample:
  "RH_use dry_params = 0 \<and> AF_peck dry_params = Inr (Fin 1)"
proof -
  have b: "factor_inputs_in_range unit_params"
    by (simp add: factor_inputs_in_range_def unit_params_def)
  have "exp_term dry_params = exp_term unit_params"
    by (simp add: exp_term_def T_use_K_def T_stress_K_def dry_params_def)
  moreover have "exp_term unit_params = Inr (Fin (spec_E unit_params))"
    using b by (rule exp_term_value(1))
  moreover have "spec_E unit_params = 1"
    by (simp add: spec_E_def unit_params_def)
  ultimately have e: "exp_term dry_params = Inr (Fin 1)" by simp
  have f: "RH_use dry_params = 0" "RH_stress dry_params = 50" "n dry_params = 0"
    by (simp_all add: dry_params_def unit_params_def)
  have s1: "py_div (Fin 0) (Fin 50) = Inr (Fin 0)" by (simp add: py_div_def)
  have s2: "py_pow (Fin 0) (fneg (Fin 0)) = Inr (Fin 1)" by simp
  have s3: "fmul (Fin 1) (Fin 1) = Fin 1" by simp
  have "AF_peck dry_params = Inr (Fin 1)"
    by (simp only: AF_peck_def f s1 s2 e s3 bind_Inr)
  with f(1) show ?thesis by blast
qed

text \<open>
  Claim C7, amended. With \<open>RH_use = 0\<close> the Eyring expression raises
  \<open>ZeroDivisionError\<close> (it divides by \<open>RH_use\<close>), so lines 91 to 94 always raise and
  produce no factor. The Peck expression raises \<open>ZeroDivisionError\<close> when \<open>n > 0\<close> or
  \<open>RH_stress = 0\<close>; otherwise its humidity term is 1 (\<open>n = 0\<close>) or 0 (\<open>n < 0\<close>) and it
  fails only if \<open>E\<close> does. With \<open>T_use_C = - 273.15\<close>, that is \<open>T_use_K = 0\<close>, \<open>E\<close> raises
  \<open>ZeroDivisionError\<close>, and so do lines 91 to 94.
\<close>

theorem C7_zero_humidity_or_kelvin_raises:
  "isl (computeAccelerationFactors (p\<lparr>RH_use := 0\<rparr>)) \<and>
   AF_eyring (p\<lparr>RH_use := 0\<rparr>) = Inl ZeroDivisionError \<and>
   AF_peck (p\<lparr>RH_use := 0\<rparr>) =
     (if RH_stress p = 0 \<or> 0 < n p then Inl ZeroDivisionError
      else bind (exp_term p) (\<lambda>e. Inr (fmul (Fin (if n p = 0 then 1 else 0)) e))) \<and>
   T_use_K (p\<lparr>T_use_C := - 273.15\<rparr>) = Fin 0 \<and>
   exp_term (p\<lparr>T_use_C := - 273.15\<rparr>) = Inl ZeroDivisionError \<and>
   computeAccelerationFactors (p\<lparr>T_use_C := - 273.15\<rparr>) = Inl ZeroDivisionError"
proof -
  have "fl_sum 0 = Fin 0" by (rule fl_sum_le_one [where e = 0]) simp_all
  then have z: "T_use_K (p\<lparr>T_use_C := - 273.15\<rparr>) = Fin 0"
    by (simp add: T_use_K_def)
  have a: "isl (computeAccelerationFactors (p\<lparr>RH_use := 0\<rparr>))"
    by (rule zero_use_fails) simp
  have b: "AF_eyring (p\<lparr>RH_use := 0\<rparr>) = Inl ZeroDivisionError"
    by (rule AF_eyring_zero_use) simp
  have "exp_term (p\<lparr>RH_use := 0\<rparr>) = exp_term p"
    by (simp add: exp_term_def T_use_K_def T_stress_K_def)
  then have c: "AF_peck (p\<lparr>RH_use := 0\<rparr>) =
     (if RH_stress p = 0 \<or> 0 < n p then Inl ZeroDivisionError
      else bind (exp_term p) (\<lambda>e. Inr (fmul (Fin (if n p = 0 then 1 else 0)) e)))"
    using AF_peck_zero_use [of "p\<lparr>RH_use := 0\<rparr>"] by simp
  have d: "exp_term (p\<lparr>T_use_C := - 273.15\<rparr>) = Inl ZeroDivisionError"
    using z by (rule zero_kelvin_fails)
  then have e: "computeAccelerationFactors (p\<lparr>T_use_C := - 273.15\<rparr>) = Inl ZeroDivisionError"
    by (simp add: computeAccelerationFactors_def AF_arrhenius_def)
  show ?thesis using a b c z d e by blast
qed

text \<open>
  Claim C8, as stated, fails: with reliability 2 and confidence 1/2 nothing is raised, and
  \<open>test_time_exponential\<close> returns \<open>- 1\<close> at \<open>N = 1\<close>, \<open>AF = 1\<close>, \<open>L = 1\<close>.
\<close>

theorem C8_counterexample:
  "1 \<le> reliability over_reliable_params \<and>
   test_time_exponential over_reliable_params 1 (Fin 1) = Inr (Fin (- 1))"
proof -
  have f: "L over_reliable_params = 1" "confidence over_reliable_params = 1 / 2"
    "reliability over_reliable_params = 2"
    by (simp_all add: over_reliable_params_def unit_params_def)
  have s1: "float_of_int 1 = Inr (Fin (of_int 1))"
    by (rule float_of_int_small [where e = 0]) simp_all
  have s2: "fmul (Fin (of_int 1)) (Fin 1) = Fin 1" by simp
  have s3: "py_div (Fin 1) (Fin 1) = Inr (Fin 1)" by (simp add: py_div_def)
  have s4: "math_log (fsub (Fin 1) (Fin (1 / 2))) = Inr (Fin (ln (1 - 1 / 2)))"
    by (rule log_one_minus) simp_all
  have s5: "math_log (Fin 2) = Inr (Fin (ln 2))" by simp
  have l2: "ln (2::real) \<noteq> 0" by simp
  have "ln (1 - 1 / 2) / ln (2::real) = - 1" using l2 by (simp add: ln_div)
  then have s6: "py_div (Fin (ln (1 - 1 / 2))) (Fin (ln 2)) = Inr (Fin (- 1))"
    using l2 by (simp add: py_div_def)
  have s7: "fmul (Fin 1) (Fin (- 1)) = Fin (- 1)" by simp
  have "test_time_exponential over_reliable_params 1 (Fin 1) = Inr (Fin (- 1))"
    by (simp only: test_time_exponential_def f s1 s2 s3 s4 s5 s6 s7 bind_Inr)
  then show ?thesis by (simp add: f)
qed

text \<open>
  Claim C8, amended. \<open>test_time_exponential\<close> raises whenever confidence is at least 1,
  reliability is at most 0 or reliability is exactly 1. When \<open>L / (N * AF)\<close> itself does
  not raise (\<open>N\<close> converts to a float and \<open>N * AF\<close> is not zero) the exception is
  \<open>ValueError\<close> (from \<open>math.log\<close>) in the first two cases and \<open>ZeroDivisionError\<close> (from
  dividing by \<open>ln 1 = 0\<close>) in the third. In particular confidence 1 raises.
\<close>

theorem C8_exponential_domain_errors:
  assumes "1 \<le> confidence p \<or> reliability p = 1 \<or> reliability p \<le> 0"
  shows "isl (test_time_exponential p N AF) \<and>
         (float_of_int N = Inr fN \<and> fmul fN AF \<noteq> Fin 0 \<longrightarrow>
            test_time_exponential p N AF =
              Inl (if 1 \<le> confidence p \<or> reliability p \<le> 0 then ValueError
                   else ZeroDivisionError))"
proof -
  have logs: "bind (math_log (fsub (Fin 1) (Fin (confidence p)))) (\<lambda>lc.
      bind (math_log (Fin (reliability p))) (\<lambda>lr.
      bind (py_div lc lr) (\<lambda>q. Inr (fmul a q)))) =
      Inl (if 1 \<le> confidence p \<or> reliability p \<le> 0 then ValueError else ZeroDivisionError)"
    for a
    using assms by (auto simp add: log_one_minus_cases py_div_def)
  have a: "isl (test_time_exponential p N AF)"
  proof (cases "float_of_int N")
    case (Inl e)
    then show ?thesis by (simp add: test_time_exponential_def)
  next
    case (Inr f)
    show ?thesis
    proof (cases "py_div (Fin (L p)) (fmul f AF)")
      case (Inl e)
      then show ?thesis using Inr by (simp add: test_time_exponential_def)
    next
      case d: (Inr a)
      show ?thesis
        by (simp only: test_time_exponential_def Inr d bind_Inr logs sum.disc)
    qed
  qed
  have b: "float_of_int N = Inr fN \<and> fmul fN AF \<noteq> Fin 0 \<longrightarrow>
      test_time_exponential p N AF =
        Inl (if 1 \<le> confidence p \<or> reliability p \<le> 0 then ValueError
             else ZeroDivisionError)"
  proof
    assume h: "float_of_int N = Inr fN \<and> fmul fN AF \<noteq> Fin 0"
    then have d: "py_div (Fin (L p)) (fmul fN AF) = Inr (fdiv (Fin (L p)) (fmul fN AF))"
      by (simp add: py_div_def)
    from h have f: "float_of_int N = Inr fN" by blast
    show "test_time_exponential p N AF =
        Inl (if 1 \<le> confidence p \<or> reliability p \<le> 0 then ValueError
             else ZeroDivisionError)"
      by (simp only: test_time_exponential_def f d bind_Inr logs)
  qed
  show ?thesis using a b by blast
qed

text \<open>
  At confidence 1, \<open>N = 1\<close> and \<open>AF = 1\<close> the call raises \<open>ValueError\<close>.
\<close>

theorem C8_exponential_domain_errors_witness:
  "(1 \<le> confidence (unit_params\<lparr>confidence := 1\<rparr>) \<or>
      reliability (unit_params\<lparr>confidence := 1\<rparr>) = 1 \<or>
      reliability (unit_params\<lparr>confidence := 1\<rparr>) \<le> 0) \<and>
   float_of_int 1 = Inr (Fin 1) \<and> fmul (Fin 1) (Fin 1) \<noteq> Fin 0 \<and>
   test_time_exponential (unit_params\<lparr>confidence := 1\<rparr>) 1 (Fin 1) = Inl ValueError"
proof -
  have h: "1 \<le> confidence (unit_params\<lparr>confidence := 1\<rparr>) \<or>
      reliability (unit_params\<lparr>confidence := 1\<rparr>) = 1 \<or>
      reliability (unit_params\<lparr>confidence := 1\<rparr>) \<le> 0"
    by simp
  have "float_of_int 1 = Inr (Fin (of_int 1))"
    by (rule float_of_int_small [where e = 0]) simp_all
  then have f: "float_of_int 1 = Inr (Fin 1)" by simp
  have m: "fmul (Fin 1) (Fin 1) \<noteq> Fin 0" by simp
  have "test_time_exponential (unit_params\<lparr>confidence := 1\<rparr>) 1 (Fin 1) = Inl ValueError"
    using C8_exponential_domain_errors [OF h, of 1 "Fin 1" "Fin 1"] f m by simp
  with h f m show ?thesis by blast
qed

text \<open>
  Claim C9. With \<open>beta = 0\<close>, \<open>test_time_weibull\<close> raises for every other argument:
  \<open>ZeroDivisionError\<close> from \<open>1 / beta\<close> when confidence is below 1, and \<open>ValueError\<close>
  from \<open>math.log\<close>, evaluated first, otherwise.
\<close>

theorem C9_weibull_beta_zero_raises:
  "isl (test_time_weibull (p\<lparr>beta := 0\<rparr>) N AF) \<and>
   (if confidence p < 1 then test_time_weibull (p\<lparr>beta := 0\<rparr>) N AF = Inl ZeroDivisionError
    else test_time_weibull (p\<lparr>beta := 0\<rparr>) N AF = Inl ValueError)"
  by (simp add: test_time_weibull_def log_one_minus_cases py_div_def)

section \<open>Independence of unused parameters\<close>

text \<open>
  Claim C10. Two parameter sets that differ only in \<open>beta\<close> give the same result of
  \<open>test_time_exponential\<close>, and two that differ only in reliability give the same result
  of \<open>test_time_weibull\<close>, values and exceptions alike.
\<close>

theorem C10_independence:
  "test_time_exponential (p\<lparr>beta := b\<rparr>) N AF = test_time_exponential p N AF \<and>
   test_time_weibull (p\<lparr>reliability := r\<rparr>) N AF = test_time_weibull p N AF"
  by (simp add: test_time_exponential_def test_time_weibull_def)

end
